theory Spec2Isabelle
  imports Complex_Main "HOL-Library.Word"
begin

section \<open>JavaScript strings and numbers\<close>

text \<open>
  A JavaScript string is modelled as a \<^typ>\<open>string\<close>, one \<^typ>\<open>char\<close> per code unit
  (code units below 256). A \<open>Buffer\<close> is a list of bytes. The values that \<open>Number(s)\<close>
  can produce for a segment without a decimal point are modelled exactly, as rationals
  with \<open>NaN\<close> and the two infinities; rounding to binary64 is not modelled, so the model
  and the runtime agree wherever the exact value is a binary64 value (all integers up to
  \<open>2 ^ 53\<close> among them).
\<close>

type_synonym Buffer = "8 word list"

datatype jsnum = NaN | Finite rat | PosInfinity | NegInfinity

fun index_of :: "'a \<Rightarrow> 'a list \<Rightarrow> nat option" where
  "index_of c [] = None"
| "index_of c (x # xs) =
     (if c = x then Some 0 else (case index_of c xs of None \<Rightarrow> None | Some n \<Rightarrow> Some (Suc n)))"

definition is_digit :: "char \<Rightarrow> bool" where
  "is_digit c = (c \<in> set ''0123456789'')"

definition digit_value :: "char \<Rightarrow> nat" where
  "digit_value c = (case index_of c ''0123456789'' of None \<Rightarrow> 0 | Some n \<Rightarrow> n)"

text \<open>The value of a string of decimal digits, most significant digit first.\<close>

fun digits_value_from :: "nat \<Rightarrow> string \<Rightarrow> nat" where
  "digits_value_from acc [] = acc"
| "digits_value_from acc (c # cs) = digits_value_from (10 * acc + digit_value c) cs"

definition digits_value :: "string \<Rightarrow> nat" where
  "digits_value s = digits_value_from 0 s"

definition is_digits :: "string \<Rightarrow> bool" where
  "is_digits s = (s \<noteq> [] \<and> list_all is_digit s)"

text \<open>Digits of the other radixes that a numeric string literal may use (0x, 0o, 0b).\<close>

definition radix_digit :: "nat \<Rightarrow> char \<Rightarrow> nat option" where
  "radix_digit r c =
     (case index_of c ''0123456789abcdef'' of
        Some n \<Rightarrow> (if n < r then Some n else None)
      | None \<Rightarrow>
          (case index_of c ''ABCDEF'' of
             Some n \<Rightarrow> (if n + 10 < r then Some (n + 10) else None)
           | None \<Rightarrow> None))"

fun radix_value_from :: "nat \<Rightarrow> nat \<Rightarrow> string \<Rightarrow> nat option" where
  "radix_value_from r acc [] = Some acc"
| "radix_value_from r acc (c # cs) =
     (case radix_digit r c of
        None \<Rightarrow> None
      | Some d \<Rightarrow> radix_value_from r (r * acc + d) cs)"

definition NonDecimalIntegerLiteral :: "string \<Rightarrow> jsnum option" where
  "NonDecimalIntegerLiteral s =
     (case s of
        c0 # c1 # c2 # cs \<Rightarrow>
          (if c0 = CHR ''0'' \<and> c1 \<in> set ''xXoObB'' then
             Some (case radix_value_from
                          (if c1 \<in> set ''xX'' then 16 else if c1 \<in> set ''oO'' then 8 else 2)
                          0 (c2 # cs) of
                     None \<Rightarrow> NaN
                   | Some n \<Rightarrow> Finite (of_nat n))
           else None)
      | _ \<Rightarrow> None)"

text \<open>The exponent part after \<open>e\<close> or \<open>E\<close>: an optional sign and decimal digits.\<close>

definition SignedInteger :: "string \<Rightarrow> int option" where
  "SignedInteger s =
     (case s of
        [] \<Rightarrow> None
      | c # cs \<Rightarrow>
          (if c = CHR ''+'' then (if is_digits cs then Some (int (digits_value cs)) else None)
           else if c = CHR ''-'' then (if is_digits cs then Some (- int (digits_value cs)) else None)
           else if is_digits (c # cs) then Some (int (digits_value (c # cs)))
           else None))"

definition scale10 :: "nat \<Rightarrow> int \<Rightarrow> rat" where
  "scale10 m k = (if 0 \<le> k then of_nat m * 10 ^ nat k else of_nat m / 10 ^ nat (- k))"

text \<open>
  An unsigned decimal literal without a decimal point: \<open>Infinity\<close>, or decimal digits with
  an optional exponent part. (\<open>split('.')\<close> never yields a segment with a point.)
\<close>

definition StrUnsignedDecimalLiteral :: "string \<Rightarrow> jsnum" where
  "StrUnsignedDecimalLiteral s =
     (if s = ''Infinity'' then PosInfinity
      else
        (let m = takeWhile is_digit s; r = dropWhile is_digit s in
         if m = [] then NaN
         else
           (case r of
              [] \<Rightarrow> Finite (of_nat (digits_value m))
            | c # e \<Rightarrow>
                (if c = CHR ''e'' \<or> c = CHR ''E'' then
                   (case SignedInteger e of
                      None \<Rightarrow> NaN
                    | Some k \<Rightarrow> Finite (scale10 (digits_value m) k))
                 else NaN))))"

definition negate :: "jsnum \<Rightarrow> jsnum" where
  "negate v =
     (case v of
        NaN \<Rightarrow> NaN
      | Finite q \<Rightarrow> Finite (- q)
      | PosInfinity \<Rightarrow> NegInfinity
      | NegInfinity \<Rightarrow> PosInfinity)"

definition StrNumericLiteral :: "string \<Rightarrow> jsnum" where
  "StrNumericLiteral s =
     (case NonDecimalIntegerLiteral s of
        Some v \<Rightarrow> v
      | None \<Rightarrow>
          (case s of
             [] \<Rightarrow> NaN
           | c # cs \<Rightarrow>
               (if c = CHR ''+'' then StrUnsignedDecimalLiteral cs
                else if c = CHR ''-'' then negate (StrUnsignedDecimalLiteral cs)
                else StrUnsignedDecimalLiteral (c # cs))))"

text \<open>White space and line terminators among the code units below 256.\<close>

definition is_white_space :: "char \<Rightarrow> bool" where
  "is_white_space c = (of_char c \<in> {9, 10, 11, 12, 13, 32, 160 :: nat})"

definition trim :: "string \<Rightarrow> string" where
  "trim s = dropWhile is_white_space (rev (dropWhile is_white_space (rev s)))"

text \<open>\<open>Number(s)\<close> on a string: the empty or blank string is 0; anything that is not a
  numeric literal is \<open>NaN\<close>. The value is exact: the runtime rounds digit strings above
  \<open>2 ^ 53\<close> and large exponents to binary64, so properties of \<open>compareVersions\<close> are
  stated for segments within that bound.\<close>

definition Number :: "string \<Rightarrow> jsnum" where
  "Number s = (let t = trim s in if t = [] then Finite 0 else StrNumericLiteral t)"

text \<open>\<open>s.split('.')\<close>: the pieces between the separators, \<open>n + 1\<close> of them for \<open>n\<close>
  separators.\<close>

fun split :: "char \<Rightarrow> string \<Rightarrow> string list" where
  "split sep [] = [[]]"
| "split sep (c # cs) =
     (if c = sep then [] # split sep cs
      else (case split sep cs of
              [] \<Rightarrow> [[c]]
            | p # ps \<Rightarrow> (c # p) # ps))"

text \<open>\<open>x || 0\<close> on an array element: \<open>undefined\<close> (an index past the end), \<open>NaN\<close> and
  zero are falsy.\<close>

definition or_zero :: "jsnum option \<Rightarrow> jsnum" where
  "or_zero v =
     (case v of
        None \<Rightarrow> Finite 0
      | Some NaN \<Rightarrow> Finite 0
      | Some x \<Rightarrow> x)"

definition at_index :: "'a list \<Rightarrow> nat \<Rightarrow> 'a option" where
  "at_index xs i = (if i < length xs then Some (xs ! i) else None)"

text \<open>The relational operator \<open>>\<close> on numbers; any comparison with \<open>NaN\<close> is false.\<close>

fun js_gt :: "jsnum \<Rightarrow> jsnum \<Rightarrow> bool" where
  "js_gt NaN _ = False"
| "js_gt _ NaN = False"
| "js_gt (Finite a) (Finite b) = (b < a)"
| "js_gt PosInfinity PosInfinity = False"
| "js_gt PosInfinity _ = True"
| "js_gt NegInfinity _ = False"
| "js_gt (Finite a) NegInfinity = True"
| "js_gt (Finite a) PosInfinity = False"

definition js_lt :: "jsnum \<Rightarrow> jsnum \<Rightarrow> bool" where
  "js_lt a b = js_gt b a"

section \<open>FirmwareVersionManager\<close>

subsection \<open>compareVersions\<close>

function compareVersions_loop :: "jsnum list \<Rightarrow> jsnum list \<Rightarrow> nat \<Rightarrow> nat \<Rightarrow> int" where
  "compareVersions_loop v1Parts v2Parts maxLength i =
     (if i < maxLength then
        (let v1Part = or_zero (at_index v1Parts i);
             v2Part = or_zero (at_index v2Parts i)
         in if js_gt v1Part v2Part then 1
            else if js_lt v1Part v2Part then - 1
            else compareVersions_loop v1Parts v2Parts maxLength (Suc i))
      else 0)"
  by pat_completeness auto
termination
  by (relation "measure (\<lambda>(v1Parts, v2Parts, maxLength, i). maxLength - i)") auto

definition compareVersions :: "string \<Rightarrow> string \<Rightarrow> int" where
  "compareVersions version1 version2 =
     (let v1Parts = map Number (split CHR ''.'' version1);
          v2Parts = map Number (split CHR ''.'' version2);
          maxLength = max (length v1Parts) (length v2Parts)
      in compareVersions_loop v1Parts v2Parts maxLength 0)"

subsection \<open>The catalogue\<close>

record FirmwareVersion =
  version :: string
  description :: "string option"
  releaseDate :: "int option"
  fileSize :: "jsnum option"
  fileUrl :: "string option"
  checksum :: "string option"
  signature :: "string option"
  forceUpdate :: "bool option"
  supportedDevices :: "string list option"

text \<open>
  A declared \<open>fileSize\<close> is a JavaScript number: any value of \<^typ>\<open>jsnum\<close>, \<open>NaN\<close> and the
  infinities included.
\<close>

text \<open>
  The catalogue is a JavaScript \<open>Map\<close>: its values are listed in insertion order, and
  setting an existing key keeps the key's place. A release date is the value of
  \<open>getTime()\<close>, in milliseconds.
\<close>

type_synonym FirmwareVersionManager = "(string \<times> FirmwareVersion) list"

fun map_set :: "'k \<Rightarrow> 'v \<Rightarrow> ('k \<times> 'v) list \<Rightarrow> ('k \<times> 'v) list" where
  "map_set k v [] = [(k, v)]"
| "map_set k v ((k', v') # kvs) =
     (if k' = k then (k, v) # kvs else (k', v') # map_set k v kvs)"

definition registerVersion ::
  "string \<Rightarrow> FirmwareVersion \<Rightarrow> FirmwareVersionManager \<Rightarrow> FirmwareVersionManager" where
  "registerVersion v firmware versions = map_set v firmware versions"

definition getVersion :: "FirmwareVersionManager \<Rightarrow> string \<Rightarrow> FirmwareVersion option" where
  "getVersion versions v = map_of versions v"

definition getAllVersions :: "FirmwareVersionManager \<Rightarrow> FirmwareVersion list" where
  "getAllVersions versions = map snd versions"

text \<open>\<open>a.releaseDate?.getTime() || 0\<close>\<close>

definition release_time :: "FirmwareVersion \<Rightarrow> int" where
  "release_time a = (case releaseDate a of None \<Rightarrow> 0 | Some t \<Rightarrow> t)"

text \<open>The array is sorted by \<open>dateB - dateA\<close> (newest first; the sort is stable) and its
  first element is returned.\<close>

definition getLatestVersion :: "FirmwareVersionManager \<Rightarrow> FirmwareVersion option" where
  "getLatestVersion versions =
     (let vs = getAllVersions versions in
      if length vs = 0 then None
      else Some (hd (sort_key (\<lambda>a. - release_time a) vs)))"

record UpdateCheck =
  needsUpdate_flag :: bool
  latestVersion :: "FirmwareVersion option"

definition needsUpdate ::
  "FirmwareVersionManager \<Rightarrow> string \<Rightarrow> string option \<Rightarrow> UpdateCheck" where
  "needsUpdate versions currentVersion targetVersion =
     (let latest =
            (case targetVersion of
               None \<Rightarrow> getLatestVersion versions
             | Some t \<Rightarrow> (if t = [] then getLatestVersion versions else getVersion versions t))
      in case latest of
           None \<Rightarrow> \<lparr>needsUpdate_flag = False, latestVersion = None\<rparr>
         | Some l \<Rightarrow>
             (let comparison = compareVersions currentVersion (version l)
              in \<lparr>needsUpdate_flag = (comparison < 0), latestVersion = Some l\<rparr>))"

definition getUpgradeableVersions ::
  "FirmwareVersionManager \<Rightarrow> string \<Rightarrow> FirmwareVersion list" where
  "getUpgradeableVersions versions currentVersion =
     filter (\<lambda>v. compareVersions currentVersion (version v) < 0) (getAllVersions versions)"

section \<open>FirmwareVerifier\<close>

text \<open>
  The verifier is modelled over what the runtime supplies: the hexadecimal digests of a
  buffer, from the \<open>crypto\<close> module, and the conversion of a number to a string that a
  template literal applies to an interpolated number.
\<close>

record crypto =
  md5_hex :: "Buffer \<Rightarrow> string"
  sha256_hex :: "Buffer \<Rightarrow> string"
  number_to_string :: "jsnum \<Rightarrow> string"

text \<open>A number is falsy when it is zero or \<open>NaN\<close>; \<open>===\<close> on numbers never holds of
  \<open>NaN\<close>.\<close>

definition truthy :: "jsnum \<Rightarrow> bool" where
  "truthy v =
     (case v of
        NaN \<Rightarrow> False
      | Finite q \<Rightarrow> q \<noteq> 0
      | PosInfinity \<Rightarrow> True
      | NegInfinity \<Rightarrow> True)"

fun strict_equals :: "jsnum \<Rightarrow> jsnum \<Rightarrow> bool" where
  "strict_equals (Finite a) (Finite b) = (a = b)"
| "strict_equals PosInfinity PosInfinity = True"
| "strict_equals NegInfinity NegInfinity = True"
| "strict_equals _ _ = False"

text \<open>\<open>buffer.length\<close> as a number.\<close>

definition buffer_length :: "Buffer \<Rightarrow> jsnum" where
  "buffer_length b = Finite (of_nat (length b))"

datatype exn = Error string

definition toLowerCase_char :: "char \<Rightarrow> char" where
  "toLowerCase_char c =
     (let n = (of_char c :: nat) in
      if (65 \<le> n \<and> n \<le> 90) \<or> (192 \<le> n \<and> n \<le> 214) \<or> (216 \<le> n \<and> n \<le> 222)
      then char_of (n + 32) else c)"

definition toLowerCase :: "string \<Rightarrow> string" where
  "toLowerCase s = map toLowerCase_char s"

text \<open>Hashing a buffer with \<open>md5\<close> or \<open>sha256\<close> does not throw, so the \<open>catch\<close>
  branches of \<open>verifyChecksum\<close> and \<open>verifySignature\<close> are never taken and both return a
  boolean.\<close>

definition verifyChecksum :: "crypto \<Rightarrow> Buffer \<Rightarrow> string \<Rightarrow> bool" where
  "verifyChecksum H firmwareData expectedChecksum =
     (let calculatedChecksum =
            (if length expectedChecksum = 32 then md5_hex H firmwareData
             else sha256_hex H firmwareData)
      in toLowerCase calculatedChecksum = toLowerCase expectedChecksum)"

text \<open>\<open>/^[A-Za-z0-9+/=]+$/\<close>\<close>

definition signature_char :: "char \<Rightarrow> bool" where
  "signature_char c =
     (c \<in> set ''ABCDEFGHIJKLMNOPQRSTUVWXYZabcdefghijklmnopqrstuvwxyz0123456789+/='')"

definition isValidSignatureFormat :: "string \<Rightarrow> bool" where
  "isValidSignatureFormat sig = (length sig > 0 \<and> list_all signature_char sig)"

text \<open>
  With a key, the source builds an \<open>RSA-SHA256\<close> verifier over the data, never passes it
  the signature or the key, and returns \<open>true\<close>. An absent key and the empty string are
  both falsy.
\<close>

definition verifySignature :: "Buffer \<Rightarrow> string \<Rightarrow> string option \<Rightarrow> bool" where
  "verifySignature firmwareData sig publicKey =
     (if publicKey = None \<or> publicKey = Some [] then isValidSignatureFormat sig
      else True)"

text \<open>Decimal rendering of a response's status code, as interpolated into a message.\<close>

fun show_nat :: "nat \<Rightarrow> string" where
  "show_nat n =
     (if n < 10 then [''0123456789'' ! n]
      else show_nat (n div 10) @ [''0123456789'' ! (n mod 10)])"

declare show_nat.simps [simp del]

record VerificationResult =
  valid :: bool
  errors :: "string list"

definition verifyIntegrity :: "crypto \<Rightarrow> Buffer \<Rightarrow> FirmwareVersion \<Rightarrow> VerificationResult" where
  "verifyIntegrity H firmwareData firmwareVersion =
     (let errors0 = [];
          errors1 =
            (case fileSize firmwareVersion of
               None \<Rightarrow> errors0
             | Some sz \<Rightarrow>
                 (if truthy sz \<and> \<not> strict_equals (buffer_length firmwareData) sz
                  then errors0 @ [''File size mismatch: expected '' @ number_to_string H sz
                                  @ '', got ''
                                  @ number_to_string H (buffer_length firmwareData)]
                  else errors0));
          errors2 =
            (case checksum firmwareVersion of
               None \<Rightarrow> errors1
             | Some cs \<Rightarrow>
                 (if cs \<noteq> [] \<and> \<not> verifyChecksum H firmwareData cs
                  then errors1 @ [''Checksum verification failed'']
                  else errors1));
          errors3 =
            (case signature firmwareVersion of
               None \<Rightarrow> errors2
             | Some sig \<Rightarrow>
                 (if sig \<noteq> [] \<and> \<not> verifySignature firmwareData sig None
                  then errors2 @ [''Signature verification failed'']
                  else errors2))
      in \<lparr>valid = (length errors3 = 0), errors = errors3\<rparr>)"

section \<open>FirmwareDownloader\<close>

text \<open>
  What the network does when it is asked is an input of the model: \<open>fetch\<close> either
  rejects (a transport failure, or the abort raised when the timeout fires) or answers
  with a response, whose body is read chunk by chunk until the stream ends or a read
  fails.
\<close>

datatype stream_end = Done | ReadFailed string

record Response =
  resp_ok :: bool
  resp_status :: nat
  content_length :: "string option"
  resp_body :: "(Buffer list \<times> stream_end) option"

datatype fetch_outcome = Rejected string | Responded Response

record DownloadProgress =
  downloaded :: int
  total_bytes :: int
  percentage :: int

text \<open>\<open>parseInt(s, 10)\<close>: leading white space, an optional sign, then the longest run
  of decimal digits; \<open>None\<close> stands for \<open>NaN\<close>.\<close>

definition parseInt :: "string \<Rightarrow> int option" where
  "parseInt s =
     (let t = dropWhile is_white_space s;
          neg = (t \<noteq> [] \<and> hd t = CHR ''-'');
          u = (if t \<noteq> [] \<and> (hd t = CHR ''-'' \<or> hd t = CHR ''+'') then tl t else t);
          ds = takeWhile is_digit u
      in if ds = [] then None
         else Some (if neg then - int (digits_value ds) else int (digits_value ds)))"

text \<open>\<open>Math.round((downloaded / total) * 100)\<close> for a positive total, in exact
  arithmetic: the nearest integer, halves upwards. The runtime rounds the binary64
  product instead, which can lie just below a half where the exact value is the half
  (23 of 40 gives 57 at runtime and 58 here); both never decrease as \<open>downloaded\<close> grows,
  neither is negative, and both are 100 when \<open>downloaded\<close> equals the total.\<close>

definition round_percentage :: "int \<Rightarrow> int \<Rightarrow> int" where
  "round_percentage d t = (200 * d + t) div (2 * t)"

text \<open>The read loop: each chunk is kept and counted, and reported when a callback was
  given and the declared total is positive.\<close>

fun read_loop ::
  "bool \<Rightarrow> int option \<Rightarrow> Buffer list \<Rightarrow> Buffer list \<Rightarrow> int
     \<Rightarrow> DownloadProgress list \<times> Buffer list \<times> int" where
  "read_loop onProgress total' [] chunks dl = ([], chunks, dl)"
| "read_loop onProgress total' (v # rest) chunks dl =
     (let chunks' = chunks @ [v];
          dl' = dl + int (length v);
          tick =
            (case total' of
               None \<Rightarrow> []
             | Some t \<Rightarrow>
                 (if onProgress \<and> t > 0
                  then [\<lparr>downloaded = dl', total_bytes = t,
                          percentage = round_percentage dl' t\<rparr>]
                  else []))
      in case read_loop onProgress total' rest chunks' dl' of
           (ticks, cs, d) \<Rightarrow> (tick @ ticks, cs, d))"

definition fetchWithProgress ::
  "fetch_outcome \<Rightarrow> bool \<Rightarrow> DownloadProgress list \<times> (exn + Buffer)" where
  "fetchWithProgress net onProgress =
     (case net of
        Rejected msg \<Rightarrow> ([], Inl (Error msg))
      | Responded response \<Rightarrow>
          (if \<not> resp_ok response
           then ([], Inl (Error (''HTTP error! status: '' @ show_nat (resp_status response))))
           else
             (let total' =
                    (case content_length response of
                       None \<Rightarrow> Some 0
                     | Some cl \<Rightarrow> (if cl = [] then Some 0 else parseInt cl))
              in case resp_body response of
                   None \<Rightarrow> ([], Inl (Error ''Response body is null''))
                 | Some (stream, ending) \<Rightarrow>
                     (case read_loop onProgress total' stream [] 0 of
                        (ticks, chunks, dl) \<Rightarrow>
                          (case ending of
                             ReadFailed msg \<Rightarrow> (ticks, Inl (Error msg))
                           | Done \<Rightarrow> (ticks, Inr (concat chunks)))))))"

type_synonym FirmwareDownloader = "string \<rightharpoonup> Buffer"

text \<open>One call of \<open>download\<close>: the cache afterwards, the progress reports made to the
  callback, whether the network was asked, and the buffer or the error.\<close>

record DownloadRun =
  dl_cache :: FirmwareDownloader
  dl_ticks :: "DownloadProgress list"
  dl_fetched :: bool
  dl_result :: "exn + Buffer"

definition download ::
  "fetch_outcome \<Rightarrow> FirmwareDownloader \<Rightarrow> string \<Rightarrow> bool \<Rightarrow> DownloadRun" where
  "download net downloadCache url onProgress =
     (case downloadCache url of
        Some cached \<Rightarrow>
          \<lparr>dl_cache = downloadCache,
           dl_ticks =
             (if onProgress
              then [\<lparr>downloaded = int (length cached), total_bytes = int (length cached),
                      percentage = 100\<rparr>]
              else []),
           dl_fetched = False,
           dl_result = Inr cached\<rparr>
      | None \<Rightarrow>
          (case fetchWithProgress net onProgress of
             (ticks, Inl (Error msg)) \<Rightarrow>
               \<lparr>dl_cache = downloadCache, dl_ticks = ticks, dl_fetched = True,
                dl_result = Inl (Error (''Firmware download failed: '' @ msg))\<rparr>
           | (ticks, Inr buffer) \<Rightarrow>
               \<lparr>dl_cache = downloadCache(url \<mapsto> buffer), dl_ticks = ticks, dl_fetched = True,
                dl_result = Inr buffer\<rparr>))"

definition clearCache :: "FirmwareDownloader \<Rightarrow> FirmwareDownloader" where
  "clearCache downloadCache = Map.empty"

text \<open>A sequence of calls on one downloader, each with its url, whether a callback is
  given, and the network's behaviour should it be asked.\<close>

fun download_all ::
  "FirmwareDownloader \<Rightarrow> (string \<times> bool \<times> fetch_outcome) list \<Rightarrow> DownloadRun list" where
  "download_all downloadCache [] = []"
| "download_all downloadCache ((url, onProgress, net) # calls) =
     (let r = download net downloadCache url onProgress
      in r # download_all (dl_cache r) calls)"

section \<open>OtaManager\<close>

datatype OtaUpdateStatus =
  Idle | Checking | Downloading | Verifying | Installing | Completed | Failed

record OtaUpdateInfo =
  deviceId :: string
  currentVersion :: string
  targetVersion :: "string option"
  status :: OtaUpdateStatus
  progress :: "int option"
  error :: "string option"
  startedAt :: "nat option"
  completedAt :: "nat option"

record OtaManager =
  versionManager :: FirmwareVersionManager
  downloader :: FirmwareDownloader
  updates :: "string \<rightharpoonup> OtaUpdateInfo"

text \<open>
  What an operation does besides returning is recorded as a list of events, in the order
  of the source's statements: each \<open>this.updates.set\<close> and \<open>this.updates.delete\<close>, each
  request sent to the network, and each call of \<open>verifyIntegrity\<close> with its arguments.
  An operation yields its events, the manager afterwards, and the value returned or the
  error thrown. The clock readings of \<open>new Date()\<close> are arguments. Operations run one
  after the other: interleavings of their asynchronous steps are outside the model.
\<close>

datatype event =
    SessionSet string OtaUpdateInfo
  | SessionDelete string
  | NetworkFetch string
  | IntegrityCheck string Buffer FirmwareVersion

type_synonym 'a outcome = "event list \<times> OtaManager \<times> (exn + 'a)"

definition events_of :: "'a outcome \<Rightarrow> event list" where
  "events_of r = fst r"

definition manager_of :: "'a outcome \<Rightarrow> OtaManager" where
  "manager_of r = fst (snd r)"

definition result_of :: "'a outcome \<Rightarrow> exn + 'a" where
  "result_of r = snd (snd r)"

definition set_update :: "string \<Rightarrow> OtaUpdateInfo \<Rightarrow> OtaManager \<Rightarrow> OtaManager" where
  "set_update d u m = m\<lparr>updates := (updates m)(d \<mapsto> u)\<rparr>"

text \<open>\<open>needsUpdate\<close> does not throw, so \<open>checkForUpdate\<close> never takes its \<open>catch\<close>
  branch: it always returns the latest version of the catalogue, or \<open>null\<close>.\<close>

definition checkForUpdate ::
  "nat \<Rightarrow> string \<Rightarrow> string \<Rightarrow> OtaManager \<Rightarrow> FirmwareVersion option outcome" where
  "checkForUpdate now d cur m =
     (let updateInfo =
            \<lparr>deviceId = d, currentVersion = cur, targetVersion = None, status = Checking,
             progress = None, error = None, startedAt = Some now, completedAt = None\<rparr>;
          result = needsUpdate (versionManager m) cur None;
          updateInfo' =
            (case latestVersion result of
               Some l \<Rightarrow>
                 (if needsUpdate_flag result
                  then updateInfo\<lparr>status := Idle, targetVersion := Some (version l)\<rparr>
                  else updateInfo\<lparr>status := Idle\<rparr>)
             | None \<Rightarrow> updateInfo\<lparr>status := Idle\<rparr>)
      in ([SessionSet d updateInfo, SessionSet d updateInfo'],
          set_update d updateInfo' m,
          Inr (latestVersion result)))"

text \<open>The progress callback: every report is written to the session and stored.\<close>

fun report_progress ::
  "string \<Rightarrow> OtaUpdateInfo \<Rightarrow> DownloadProgress list \<Rightarrow> OtaUpdateInfo \<times> event list" where
  "report_progress d u [] = (u, [])"
| "report_progress d u (p # ps) =
     (let u' = u\<lparr>progress := Some (percentage p)\<rparr>
      in case report_progress d u' ps of (uf, evs) \<Rightarrow> (uf, SessionSet d u' # evs))"

text \<open>\<open>errors.join(', ')\<close>\<close>

fun join :: "string \<Rightarrow> string list \<Rightarrow> string" where
  "join sep [] = []"
| "join sep [x] = x"
| "join sep (x # y # ys) = x @ sep @ join sep (y # ys)"

definition downloadFirmware ::
  "crypto \<Rightarrow> fetch_outcome \<Rightarrow> nat \<Rightarrow> string \<Rightarrow> FirmwareVersion \<Rightarrow> OtaManager
     \<Rightarrow> Buffer outcome" where
  "downloadFirmware H net now d firmwareVersion m =
     (let updateInfo0 =
            (case updates m d of
               Some u \<Rightarrow> u
             | None \<Rightarrow>
                 \<lparr>deviceId = d, currentVersion = [], targetVersion = None, status = Idle,
                  progress = None, error = None, startedAt = None, completedAt = None\<rparr>);
          updateInfo1 =
            updateInfo0\<lparr>status := Downloading, progress := Some 0,
                         targetVersion := Some (version firmwareVersion)\<rparr>;
          m1 = set_update d updateInfo1 m;
          url = (case fileUrl firmwareVersion of None \<Rightarrow> [] | Some u \<Rightarrow> u)
      in if url = []
         then ([SessionSet d updateInfo1], m1,
               Inl (Error ''Firmware file URL is not specified''))
         else
           (let run = download net (downloader m1) url True;
                m2 = m1\<lparr>downloader := dl_cache run\<rparr>;
                fetched = (if dl_fetched run then [NetworkFetch url] else [])
            in case report_progress d updateInfo1 (dl_ticks run) of
                 (updateInfo2, reported) \<Rightarrow>
                   (case dl_result run of
                      Inl (Error msg) \<Rightarrow>
                        (let failed = updateInfo2\<lparr>status := Failed, error := Some msg\<rparr>
                         in ([SessionSet d updateInfo1] @ fetched @ reported
                               @ [SessionSet d failed],
                             set_update d failed m2,
                             Inl (Error msg)))
                    | Inr firmwareData \<Rightarrow>
                        (let updateInfo3 = updateInfo2\<lparr>status := Verifying, progress := Some 90\<rparr>;
                             verification = verifyIntegrity H firmwareData firmwareVersion;
                             before =
                               [SessionSet d updateInfo1] @ fetched @ reported
                                 @ [SessionSet d updateInfo3,
                                    IntegrityCheck d firmwareData firmwareVersion]
                         in if \<not> valid verification
                            then
                              (let rejected =
                                     updateInfo3\<lparr>status := Failed,
                                                  error := Some (join '', '' (errors verification))\<rparr>;
                                   msg = ''Firmware verification failed: ''
                                           @ join '', '' (errors verification);
                                   failed = rejected\<lparr>status := Failed, error := Some msg\<rparr>
                               in (before @ [SessionSet d rejected, SessionSet d failed],
                                   set_update d failed m2,
                                   Inl (Error msg)))
                            else
                              (let completed =
                                     updateInfo3\<lparr>status := Completed, progress := Some 100,
                                                  completedAt := Some now\<rparr>
                               in (before @ [SessionSet d completed],
                                   set_update d completed m2,
                                   Inr firmwareData))))))"

definition performUpdate ::
  "crypto \<Rightarrow> fetch_outcome \<Rightarrow> nat \<Rightarrow> nat \<Rightarrow> string \<Rightarrow> string \<Rightarrow> OtaManager
     \<Rightarrow> Buffer outcome" where
  "performUpdate H net now now' d cur m =
     (case checkForUpdate now d cur m of
        (evs, m1, Inl e) \<Rightarrow> (evs, m1, Inl e)
      | (evs, m1, Inr None) \<Rightarrow> (evs, m1, Inl (Error ''No update available''))
      | (evs, m1, Inr (Some latest)) \<Rightarrow>
          (case downloadFirmware H net now' d latest m1 of
             (evs', m2, r) \<Rightarrow> (evs @ evs', m2, r)))"

definition getUpdateStatus :: "OtaManager \<Rightarrow> string \<Rightarrow> OtaUpdateInfo option" where
  "getUpdateStatus m d = updates m d"

definition cancelUpdate :: "string \<Rightarrow> OtaManager \<Rightarrow> unit outcome" where
  "cancelUpdate d m =
     (case updates m d of
        None \<Rightarrow> ([], m, Inr ())
      | Some updateInfo \<Rightarrow>
          (if status updateInfo = Downloading
           then (let cancelled =
                       updateInfo\<lparr>status := Failed, error := Some ''Update cancelled by user''\<rparr>
                 in ([SessionSet d cancelled], set_update d cancelled m, Inr ()))
           else ([], m, Inr ())))"

definition clearUpdate :: "string \<Rightarrow> OtaManager \<Rightarrow> unit outcome" where
  "clearUpdate d m = ([SessionDelete d], m\<lparr>updates := (updates m)(d := None)\<rparr>, Inr ())"

text \<open>Sequences of operations on one manager.\<close>

datatype operation =
    CheckForUpdate nat string string
  | DownloadFirmware fetch_outcome nat string FirmwareVersion
  | PerformUpdate fetch_outcome nat nat string string
  | CancelUpdate string
  | ClearUpdate string

definition discard :: "'a outcome \<Rightarrow> event list \<times> OtaManager" where
  "discard r = (events_of r, manager_of r)"

fun perform :: "crypto \<Rightarrow> operation \<Rightarrow> OtaManager \<Rightarrow> event list \<times> OtaManager" where
  "perform H (CheckForUpdate now d cur) m = discard (checkForUpdate now d cur m)"
| "perform H (DownloadFirmware net now d fv) m = discard (downloadFirmware H net now d fv m)"
| "perform H (PerformUpdate net now now' d cur) m = discard (performUpdate H net now now' d cur m)"
| "perform H (CancelUpdate d) m = discard (cancelUpdate d m)"
| "perform H (ClearUpdate d) m = discard (clearUpdate d m)"

fun perform_all :: "crypto \<Rightarrow> operation list \<Rightarrow> OtaManager \<Rightarrow> event list \<times> OtaManager" where
  "perform_all H [] m = ([], m)"
| "perform_all H (op # ops) m =
     (case perform H op m of
        (evs, m') \<Rightarrow> (case perform_all H ops m' of (evs', m'') \<Rightarrow> (evs @ evs', m'')))"

section \<open>Notions used to state the properties\<close>

subsection \<open>Version comparison\<close>







subsection \<open>Integrity checks\<close>

text \<open>The three checks of \<open>verifyIntegrity\<close>, each on its own: a check is made when its
  field is truthy (a size other than 0 and \<open>NaN\<close>, a non-empty string), and fails as
  follows.\<close>

definition size_check_fails :: "Buffer \<Rightarrow> FirmwareVersion \<Rightarrow> bool" where
  "size_check_fails firmwareData fv =
     (case fileSize fv of
        None \<Rightarrow> False
      | Some sz \<Rightarrow> truthy sz \<and> \<not> strict_equals (buffer_length firmwareData) sz)"

definition checksum_check_fails :: "crypto \<Rightarrow> Buffer \<Rightarrow> FirmwareVersion \<Rightarrow> bool" where
  "checksum_check_fails H firmwareData fv =
     (case checksum fv of None \<Rightarrow> False | Some cs \<Rightarrow> cs \<noteq> [] \<and> \<not> verifyChecksum H firmwareData cs)"

definition signature_check_fails :: "FirmwareVersion \<Rightarrow> bool" where
  "signature_check_fails fv =
     (case signature fv of None \<Rightarrow> False | Some sig \<Rightarrow> sig \<noteq> [] \<and> \<not> isValidSignatureFormat sig)"

definition failed_checks :: "crypto \<Rightarrow> Buffer \<Rightarrow> FirmwareVersion \<Rightarrow> nat" where
  "failed_checks H firmwareData fv =
     (if size_check_fails firmwareData fv then 1 else 0)
     + (if checksum_check_fails H firmwareData fv then 1 else 0)
     + (if signature_check_fails fv then 1 else 0)"

text \<open>The size check as the specification words it: made whenever a size is declared.\<close>

definition declared_size_differs :: "Buffer \<Rightarrow> FirmwareVersion \<Rightarrow> bool" where
  "declared_size_differs firmwareData fv =
     (case fileSize fv of
        None \<Rightarrow> False
      | Some sz \<Rightarrow> \<not> strict_equals (buffer_length firmwareData) sz)"

text \<open>Signature verification as the specification words it, over an asymmetric
  verification primitive; and a primitive under which no signature is valid.\<close>

definition verifySignature_by_primitive ::
  "(Buffer \<Rightarrow> string \<Rightarrow> string \<Rightarrow> bool) \<Rightarrow> Buffer \<Rightarrow> string \<Rightarrow> string option \<Rightarrow> bool" where
  "verifySignature_by_primitive accepts firmwareData sig publicKey =
     (case publicKey of
        None \<Rightarrow> isValidSignatureFormat sig
      | Some key \<Rightarrow> (if key = [] then isValidSignatureFormat sig else accepts firmwareData sig key))"

definition accepts_nothing :: "Buffer \<Rightarrow> string \<Rightarrow> string \<Rightarrow> bool" where
  "accepts_nothing firmwareData sig key = False"

text \<open>Stand-ins for the runtime's functions, to run the model on concrete inputs: the
  digest has the right length and depends on the length of the data only, and the
  conversion of a number is the runtime's for the integers below \<open>10 ^ 21\<close>.\<close>

definition sample_number_to_string :: "jsnum \<Rightarrow> string" where
  "sample_number_to_string v =
     (case v of
        NaN \<Rightarrow> ''NaN''
      | Finite q \<Rightarrow> (if q < 0 then ''-'' else []) @ show_nat (nat \<lfloor>\<bar>q\<bar>\<rfloor>)
      | PosInfinity \<Rightarrow> ''Infinity''
      | NegInfinity \<Rightarrow> ''-Infinity'')"

definition sample_crypto :: crypto where
  "sample_crypto =
     \<lparr>md5_hex = (\<lambda>b. replicate 32 (''0123456789abcdef'' ! (length b mod 16))),
      sha256_hex = (\<lambda>b. replicate 64 (''0123456789abcdef'' ! (length b mod 16))),
      number_to_string = sample_number_to_string\<rparr>"

definition sample_firmware :: FirmwareVersion where
  "sample_firmware =
     \<lparr>version = ''1.0.1'', description = None, releaseDate = Some 1700000000000,
      fileSize = None, fileUrl = Some ''https://example.com/fw-1.0.1.bin'',
      checksum = None, signature = None, forceUpdate = None, supportedDevices = None\<rparr>"

definition sample_response :: Response where
  "sample_response =
     \<lparr>resp_ok = True, resp_status = 200, content_length = Some ''3'',
      resp_body = Some ([[1, 2], [3]], Done)\<rparr>"

definition sample_manager :: OtaManager where
  "sample_manager =
     \<lparr>versionManager = [(''1.0.1'', sample_firmware)], downloader = Map.empty,
      updates = Map.empty\<rparr>"

subsection \<open>Sessions and events\<close>

text \<open>The sessions that result from a list of events.\<close>

definition apply_event ::
  "event \<Rightarrow> (string \<rightharpoonup> OtaUpdateInfo) \<Rightarrow> (string \<rightharpoonup> OtaUpdateInfo)" where
  "apply_event e s =
     (case e of
        SessionSet d u \<Rightarrow> s(d \<mapsto> u)
      | SessionDelete d \<Rightarrow> s(d := None)
      | NetworkFetch url \<Rightarrow> s
      | IntegrityCheck d b fv \<Rightarrow> s)"

fun replay :: "event list \<Rightarrow> (string \<rightharpoonup> OtaUpdateInfo) \<Rightarrow> (string \<rightharpoonup> OtaUpdateInfo)" where
  "replay [] s = s"
| "replay (e # es) s = replay es (apply_event e s)"

text \<open>An integrity check made for device \<open>d\<close> that found no error.\<close>

fun clean_check :: "crypto \<Rightarrow> string \<Rightarrow> event option \<Rightarrow> bool" where
  "clean_check H d (Some (IntegrityCheck d' firmwareData fv)) =
     (d' = d \<and> errors (verifyIntegrity H firmwareData fv) = [])"
| "clean_check H d _ = False"

fun marks_completed :: "event \<Rightarrow> string option" where
  "marks_completed (SessionSet d u) = (if status u = Completed then Some d else None)"
| "marks_completed _ = None"

text \<open>Every event that stores a session with status \<open>Completed\<close> comes right after a
  clean integrity check for the same device; the first argument after the digests is
  the event before the list.\<close>

fun completion_guarded :: "crypto \<Rightarrow> event option \<Rightarrow> event list \<Rightarrow> bool" where
  "completion_guarded H prev [] = True"
| "completion_guarded H prev (e # es) =
     ((case marks_completed e of None \<Rightarrow> True | Some d \<Rightarrow> clean_check H d prev)
      \<and> completion_guarded H (Some e) es)"

text \<open>
  The bytes that a run of \<open>downloadFirmware\<close> obtains from the downloader, if it obtains
  any; and what an operation submits to \<open>verifyIntegrity\<close> when run on a manager: the
  device, those bytes, and the version being installed.
\<close>

definition downloaded_by :: "fetch_outcome \<Rightarrow> FirmwareVersion \<Rightarrow> OtaManager \<Rightarrow> Buffer option" where
  "downloaded_by net fv m =
     (case fileUrl fv of
        None \<Rightarrow> None
      | Some url \<Rightarrow>
          (if url = [] then None
           else (case dl_result (download net (downloader m) url True) of
                   Inl e \<Rightarrow> None
                 | Inr firmwareData \<Rightarrow> Some firmwareData)))"

fun verification_of ::
  "operation \<times> OtaManager \<Rightarrow> (string \<times> Buffer \<times> FirmwareVersion) option" where
  "verification_of (DownloadFirmware net now d fv, m) =
     map_option (\<lambda>firmwareData. (d, firmwareData, fv)) (downloaded_by net fv m)"
| "verification_of (PerformUpdate net now now' d cur, m) =
     (case latestVersion (needsUpdate (versionManager m) cur None) of
        None \<Rightarrow> None
      | Some latest \<Rightarrow>
          map_option (\<lambda>firmwareData. (d, firmwareData, latest)) (downloaded_by net latest m))"
| "verification_of (CheckForUpdate now d cur, m) = None"
| "verification_of (CancelUpdate d, m) = None"
| "verification_of (ClearUpdate d, m) = None"

text \<open>
  The events of one operation are tied to its verification when every integrity check
  among them is the check of exactly that device, those bytes and that version, and
  every event that stores a session with status \<open>Completed\<close> is for that device, comes
  right after that check, and the check found no error.
\<close>

definition tied_event ::
  "crypto \<Rightarrow> (string \<times> Buffer \<times> FirmwareVersion) option \<Rightarrow> event option \<Rightarrow> event \<Rightarrow> bool" where
  "tied_event H v prev e =
     (case e of
        SessionSet d u \<Rightarrow>
          (if status u = Completed
           then (case v of
                   None \<Rightarrow> False
                 | Some (d', firmwareData, fv) \<Rightarrow>
                     d' = d \<and> prev = Some (IntegrityCheck d firmwareData fv)
                     \<and> errors (verifyIntegrity H firmwareData fv) = [])
           else True)
      | SessionDelete d \<Rightarrow> True
      | NetworkFetch url \<Rightarrow> True
      | IntegrityCheck d b fv \<Rightarrow> v = Some (d, b, fv))"

fun tied ::
  "crypto \<Rightarrow> (string \<times> Buffer \<times> FirmwareVersion) option \<Rightarrow> event option \<Rightarrow> event list \<Rightarrow> bool" where
  "tied H v prev [] = True"
| "tied H v prev (e # es) = (tied_event H v prev e \<and> tied H v (Some e) es)"

text \<open>An event that neither stores a \<open>Completed\<close> session nor is an integrity check.\<close>

fun quiet :: "event \<Rightarrow> bool" where
  "quiet (SessionSet d u) = (status u \<noteq> Completed)"
| "quiet (SessionDelete d) = True"
| "quiet (NetworkFetch url) = True"
| "quiet (IntegrityCheck d b fv) = False"

text \<open>The operations of a sequence, each with the manager it runs on.\<close>

fun steps :: "crypto \<Rightarrow> operation list \<Rightarrow> OtaManager \<Rightarrow> (operation \<times> OtaManager) list" where
  "steps H [] m = []"
| "steps H (op # ops) m = (op, m) # steps H ops (snd (perform H op m))"

text \<open>The progress values stored for a device, in order, and what it is for them never
  to decrease (\<open>undefined\<close> is below every number).\<close>

fun progress_writes :: "string \<Rightarrow> event list \<Rightarrow> int option list" where
  "progress_writes d [] = []"
| "progress_writes d (SessionSet d' u # es) =
     (if d' = d then progress u # progress_writes d es else progress_writes d es)"
| "progress_writes d (_ # es) = progress_writes d es"

fun progress_le :: "int option \<Rightarrow> int option \<Rightarrow> bool" where
  "progress_le None _ = True"
| "progress_le (Some a) None = False"
| "progress_le (Some a) (Some b) = (a \<le> b)"

fun nondecreasing :: "int option list \<Rightarrow> bool" where
  "nondecreasing [] = True"
| "nondecreasing [x] = True"
| "nondecreasing (x # y # ys) = (progress_le x y \<and> nondecreasing (y # ys))"

section \<open>Properties of compareVersions\<close>



















section \<open>Properties of the verifier\<close>

text \<open>
  C5, as the source has it. \<open>verifyIntegrity\<close> makes the size check when the declared
  size is truthy (neither 0 nor \<open>NaN\<close>), the checksum check when the declared checksum
  is not empty and the signature check when the declared signature is not empty; the
  three are made independently, each failed check appends exactly one message, in this
  order, and \<open>valid\<close> says that no message was appended. A buffer failing the size and
  the checksum checks, and not the signature check, gives exactly two messages.
\<close>

theorem verifyIntegrity_independent_checks:
  "errors (verifyIntegrity H firmwareData fv) =
     (if size_check_fails firmwareData fv
      then [''File size mismatch: expected '' @ number_to_string H (the (fileSize fv))
            @ '', got '' @ number_to_string H (buffer_length firmwareData)]
      else [])
     @ (if checksum_check_fails H firmwareData fv then [''Checksum verification failed''] else [])
     @ (if signature_check_fails fv then [''Signature verification failed''] else [])
   \<and> length (errors (verifyIntegrity H firmwareData fv)) = failed_checks H firmwareData fv
   \<and> valid (verifyIntegrity H firmwareData fv) = (length (errors (verifyIntegrity H firmwareData fv)) = 0)
   \<and> (size_check_fails firmwareData fv \<and> checksum_check_fails H firmwareData fv
        \<and> \<not> signature_check_fails fv
       \<longrightarrow> length (errors (verifyIntegrity H firmwareData fv)) = 2)
   \<and> (fileSize fv = Some NaN \<or> fileSize fv = Some (Finite 0) \<or> fileSize fv = None
       \<longrightarrow> \<not> size_check_fails firmwareData fv)"
  by (auto simp: verifyIntegrity_def size_check_fails_def checksum_check_fails_def
        signature_check_fails_def failed_checks_def verifySignature_def Let_def truthy_def
      split: option.splits)

theorem verifyIntegrity_independent_checks_witness:
  "size_check_fails [1, 2, 3]
     (sample_firmware\<lparr>fileSize := Some (Finite 4), checksum := Some ''abcd''\<rparr>) \<and>
   checksum_check_fails sample_crypto [1, 2, 3]
     (sample_firmware\<lparr>fileSize := Some (Finite 4), checksum := Some ''abcd''\<rparr>) \<and>
   \<not> signature_check_fails
     (sample_firmware\<lparr>fileSize := Some (Finite 4), checksum := Some ''abcd''\<rparr>) \<and>
   length (errors (verifyIntegrity sample_crypto [1, 2, 3]
     (sample_firmware\<lparr>fileSize := Some (Finite 4), checksum := Some ''abcd''\<rparr>))) = 2 \<and>
   errors (verifyIntegrity sample_crypto [1, 2, 3]
     (sample_firmware\<lparr>fileSize := Some NaN, checksum := Some ''abcd''\<rparr>))
     = [''Checksum verification failed'']"
proof -
  let ?fv = "sample_firmware\<lparr>fileSize := Some (Finite 4), checksum := Some ''abcd''\<rparr>"
  let ?fn = "sample_firmware\<lparr>fileSize := Some NaN, checksum := Some ''abcd''\<rparr>"
  have s: "size_check_fails [1, 2, 3] ?fv"
    by (simp add: size_check_fails_def sample_firmware_def truthy_def buffer_length_def)
  have c: "checksum_check_fails sample_crypto [1, 2, 3] ?fv"
    by code_simp
  have g: "\<not> signature_check_fails ?fv"
    by (simp add: signature_check_fails_def sample_firmware_def)
  have n: "fileSize ?fn = Some NaN"
    by simp
  have cn: "checksum_check_fails sample_crypto [1, 2, 3] ?fn"
    by code_simp
  have gn: "\<not> signature_check_fails ?fn"
    by (simp add: signature_check_fails_def sample_firmware_def)
  show ?thesis
    using s c g n cn gn verifyIntegrity_independent_checks [of sample_crypto "[1, 2, 3]" ?fv]
      verifyIntegrity_independent_checks [of sample_crypto "[1, 2, 3]" ?fn]
    by simp
qed

text \<open>
  C5 as stated fails for a declared size of 0: the buffer has three bytes, the declared
  size differs from its length, and no error is reported.
\<close>

theorem verifyIntegrity_declared_zero_counterexample:
  "declared_size_differs [1, 2, 3] (sample_firmware\<lparr>fileSize := Some (Finite 0)\<rparr>) \<and>
   errors (verifyIntegrity sample_crypto [1, 2, 3] (sample_firmware\<lparr>fileSize := Some (Finite 0)\<rparr>)) = [] \<and>
   valid (verifyIntegrity sample_crypto [1, 2, 3] (sample_firmware\<lparr>fileSize := Some (Finite 0)\<rparr>))"
  by (simp add: declared_size_differs_def sample_firmware_def verifyIntegrity_def truthy_def
        buffer_length_def)

text \<open>
  C9. \<open>verifyIntegrity\<close> calls \<open>verifySignature\<close> without a key, so a declared signature
  that is a non-empty string over \<open>A-Z a-z 0-9 + / =\<close> never contributes an error,
  whatever the buffer holds: the errors are those of the same record without a
  signature.
\<close>

theorem verifyIntegrity_signature_structural:
  assumes "signature fv = Some sig" "sig \<noteq> []" "list_all signature_char sig"
  shows "errors (verifyIntegrity H firmwareData fv)
           = errors (verifyIntegrity H firmwareData (fv\<lparr>signature := None\<rparr>))
         \<and> ''Signature verification failed'' \<notin> set (errors (verifyIntegrity H firmwareData fv))"
  using assms
  by (simp add: verifyIntegrity_def verifySignature_def isValidSignatureFormat_def Let_def
      split: option.splits)

theorem verifyIntegrity_signature_structural_witness:
  "signature (sample_firmware\<lparr>signature := Some ''QUJD+/8=''\<rparr>) = Some ''QUJD+/8='' \<and>
   ''QUJD+/8='' \<noteq> [] \<and> list_all signature_char ''QUJD+/8='' \<and>
   errors (verifyIntegrity sample_crypto [1, 2, 3] (sample_firmware\<lparr>signature := Some ''QUJD+/8=''\<rparr>)) = []"
proof -
  let ?fv = "sample_firmware\<lparr>signature := Some ''QUJD+/8=''\<rparr>"
  have a: "signature ?fv = Some ''QUJD+/8=''" by simp
  have b: "''QUJD+/8='' \<noteq> []" by simp
  have c: "list_all signature_char ''QUJD+/8=''" by (simp add: signature_char_def)
  show ?thesis
    using a b c verifyIntegrity_signature_structural [OF a b c, of sample_crypto "[1, 2, 3]"]
    by (simp add: verifyIntegrity_def sample_firmware_def)
qed

text \<open>
  C3, as the source has it. With a non-empty key, \<open>verifySignature\<close> returns \<open>true\<close> for
  every buffer and every signature: neither the signature nor the key is examined.
\<close>

theorem verifySignature_with_key:
  "key \<noteq> [] \<Longrightarrow> verifySignature firmwareData sig (Some key)"
  by (simp add: verifySignature_def)

theorem verifySignature_with_key_witness:
  "''-----BEGIN PUBLIC KEY-----'' \<noteq> [] \<and>
   verifySignature [1, 2, 3] ''not a signature!'' (Some ''-----BEGIN PUBLIC KEY-----'')"
  using verifySignature_with_key [of "''-----BEGIN PUBLIC KEY-----''" "[1, 2, 3]" "''not a signature!''"]
  by simp

text \<open>
  C3 as stated fails: under a primitive that accepts no signature, verification against
  the supplied key would return \<open>false\<close>, and the source returns \<open>true\<close>.
\<close>

theorem verifySignature_accepts_counterexample:
  "verifySignature [1, 2, 3] ''AAAA'' (Some ''key'') \<and>
   \<not> verifySignature_by_primitive accepts_nothing [1, 2, 3] ''AAAA'' (Some ''key'')"
  by (simp add: verifySignature_def verifySignature_by_primitive_def accepts_nothing_def)

section \<open>Properties of the downloader\<close>

lemma download_hit:
  assumes "c url = Some b"
  shows "dl_result (download net c url cb) = Inr b"
    and "\<not> dl_fetched (download net c url cb)"
    and "map percentage (dl_ticks (download net c url cb)) = (if cb then [100] else [])"
    and "dl_cache (download net c url cb) = c"
  using assms by (simp_all add: download_def)

lemma download_keeps_entry:
  assumes "c url = Some b"
  shows "dl_cache (download net c u cb) url = Some b"
proof (cases "c u")
  case None
  then have "u \<noteq> url" using assms by auto
  with None assms show ?thesis
    by (auto simp: download_def split: prod.splits sum.splits exn.splits)
next
  case (Some a)
  with assms show ?thesis by (simp add: download_def)
qed

lemma download_success_cached:
  assumes "dl_result (download net c url cb) = Inr b"
  shows "dl_cache (download net c url cb) url = Some b"
  using assms
  by (auto simp: download_def split: option.splits prod.splits sum.splits exn.splits)

lemma download_all_hits:
  assumes "c url = Some b"
  shows "\<forall>(call, r) \<in> set (zip calls (download_all c calls)).
           fst call = url \<longrightarrow>
             dl_result r = Inr b \<and> \<not> dl_fetched r
             \<and> map percentage (dl_ticks r) = (if fst (snd call) then [100] else [])"
  using assms
proof (induction calls arbitrary: c)
  case Nil
  then show ?case by simp
next
  case (Cons call calls)
  obtain u cb net where call: "call = (u, cb, net)" by (cases call) auto
  have keep: "dl_cache (download net c u cb) url = Some b"
    using Cons.prems download_keeps_entry [where c = c and url = url and b = b] by simp
  have rest: "\<forall>(call, r) \<in> set (zip calls (download_all (dl_cache (download net c u cb)) calls)).
           fst call = url \<longrightarrow>
             dl_result r = Inr b \<and> \<not> dl_fetched r
             \<and> map percentage (dl_ticks r) = (if fst (snd call) then [100] else [])"
    using keep Cons.IH [of "dl_cache (download net c u cb)"] by blast
  have first: "u = url \<longrightarrow> dl_result (download net c u cb) = Inr b
      \<and> \<not> dl_fetched (download net c u cb)
      \<and> map percentage (dl_ticks (download net c u cb)) = (if cb then [100] else [])"
    using Cons.prems download_hit [where c = c and url = url and b = b and net = net and cb = cb]
    by simp
  show ?case
    using first rest by (simp add: call Let_def)
qed

lemma sample_download:
  "download (Responded sample_response) Map.empty ''u'' True =
    \<lparr>dl_cache = [''u'' \<mapsto> [1, 2, 3]],
     dl_ticks = [\<lparr>downloaded = 2, total_bytes = 3, percentage = 67\<rparr>,
                 \<lparr>downloaded = 3, total_bytes = 3, percentage = 100\<rparr>],
     dl_fetched = True, dl_result = Inr [1, 2, 3]\<rparr>"
  by (simp add: download_def fetchWithProgress_def sample_response_def parseInt_def
        is_white_space_def is_digit_def digits_value_def digit_value_def round_percentage_def)

text \<open>
  C8. After a call of \<open>download\<close> for a url has returned a buffer, every later call for
  that url, whatever calls for other urls come in between, returns the same buffer
  without asking the network, and reports progress to a given callback exactly once,
  with percentage 100. Once \<open>clearCache\<close> has run, the next call asks the network again.
\<close>

theorem download_once_per_url:
  assumes "dl_result (download net c url cb) = Inr b"
  shows "(\<forall>(call, r) \<in> set (zip calls (download_all (dl_cache (download net c url cb)) calls)).
           fst call = url \<longrightarrow>
             dl_result r = Inr b \<and> \<not> dl_fetched r
             \<and> map percentage (dl_ticks r) = (if fst (snd call) then [100] else []))
         \<and> dl_fetched (download net' (clearCache (dl_cache (download net c url cb))) url cb')"
proof
  have "dl_cache (download net c url cb) url = Some b"
    using assms by (rule download_success_cached)
  then show "\<forall>(call, r) \<in> set (zip calls (download_all (dl_cache (download net c url cb)) calls)).
           fst call = url \<longrightarrow>
             dl_result r = Inr b \<and> \<not> dl_fetched r
             \<and> map percentage (dl_ticks r) = (if fst (snd call) then [100] else [])"
    using download_all_hits [where c = "dl_cache (download net c url cb)" and url = url and b = b]
    by simp
  show "dl_fetched (download net' (clearCache (dl_cache (download net c url cb))) url cb')"
    by (simp add: clearCache_def download_def split: prod.splits sum.splits exn.splits)
qed

theorem download_once_per_url_witness:
  "dl_result (download (Responded sample_response) Map.empty ''u'' True) = Inr [1, 2, 3] \<and>
   download_all (dl_cache (download (Responded sample_response) Map.empty ''u'' True))
       [(''v'', False, Rejected ''offline''), (''u'', True, Rejected ''offline'')] ! 1
     = \<lparr>dl_cache = [''u'' \<mapsto> [1, 2, 3]],
        dl_ticks = [\<lparr>downloaded = 3, total_bytes = 3, percentage = 100\<rparr>],
        dl_fetched = False, dl_result = Inr [1, 2, 3]\<rparr>"
proof -
  have a: "dl_result (download (Responded sample_response) Map.empty ''u'' True) = Inr [1, 2, 3]"
    by (simp add: sample_download)
  have b: "download_all (dl_cache (download (Responded sample_response) Map.empty ''u'' True))
       [(''v'', False, Rejected ''offline''), (''u'', True, Rejected ''offline'')] ! 1
     = \<lparr>dl_cache = [''u'' \<mapsto> [1, 2, 3]],
        dl_ticks = [\<lparr>downloaded = 3, total_bytes = 3, percentage = 100\<rparr>],
        dl_fetched = False, dl_result = Inr [1, 2, 3]\<rparr>"
    unfolding sample_download
    by (simp add: download_def fetchWithProgress_def)
  show ?thesis
    using download_once_per_url [OF a,
        of "[(''v'', False, Rejected ''offline''), (''u'', True, Rejected ''offline'')]"]
    by (simp only: a b simp_thms)
qed

section \<open>Properties of the manager\<close>

subsection \<open>Events of the operations\<close>

lemma valid_iff_no_errors:
  "valid (verifyIntegrity H firmwareData fv) = (errors (verifyIntegrity H firmwareData fv) = [])"
  by (simp add: verifyIntegrity_def Let_def)

lemma report_progress_fields:
  "report_progress d u ts = (u', evs) \<Longrightarrow>
     status u' = status u \<and> currentVersion u' = currentVersion u
     \<and> progress u' = (if ts = [] then progress u else Some (percentage (last ts)))"
proof (induction ts arbitrary: u u' evs)
  case Nil
  then show ?case by auto
next
  case (Cons t ts)
  obtain uf es where r: "report_progress d (u\<lparr>progress := Some (percentage t)\<rparr>) ts = (uf, es)"
    by (cases "report_progress d (u\<lparr>progress := Some (percentage t)\<rparr>) ts") auto
  with Cons.prems have "u' = uf" by (simp add: Let_def)
  with Cons.IH [OF r] show ?case by simp
qed

lemma report_progress_events:
  "report_progress d u ts = (u', evs) \<Longrightarrow> status u \<noteq> Completed \<Longrightarrow>
     (\<forall>e \<in> set evs. marks_completed e = None)"
proof (induction ts arbitrary: u u' evs)
  case Nil
  then show ?case by auto
next
  case (Cons t ts)
  obtain uf es where r: "report_progress d (u\<lparr>progress := Some (percentage t)\<rparr>) ts = (uf, es)"
    by (cases "report_progress d (u\<lparr>progress := Some (percentage t)\<rparr>) ts") auto
  with Cons.prems have evs: "evs = SessionSet d (u\<lparr>progress := Some (percentage t)\<rparr>) # es"
    by (simp add: Let_def)
  have "\<forall>e \<in> set es. marks_completed e = None"
    using Cons.IH [OF r] Cons.prems(2) by simp
  with evs Cons.prems(2) show ?case by simp
qed

lemma report_progress_replay:
  "report_progress d u ts = (u', evs) \<Longrightarrow> replay evs (s(d \<mapsto> u)) = s(d \<mapsto> u')"
proof (induction ts arbitrary: u u' evs)
  case Nil
  then show ?case by auto
next
  case (Cons t ts)
  obtain uf es where r: "report_progress d (u\<lparr>progress := Some (percentage t)\<rparr>) ts = (uf, es)"
    by (cases "report_progress d (u\<lparr>progress := Some (percentage t)\<rparr>) ts") auto
  with Cons.prems have evs: "evs = SessionSet d (u\<lparr>progress := Some (percentage t)\<rparr>) # es"
    and u': "u' = uf"
    by (simp_all add: Let_def)
  have ih: "replay es (s(d \<mapsto> u\<lparr>progress := Some (percentage t)\<rparr>)) = s(d \<mapsto> uf)"
    using r by (rule Cons.IH)
  have "replay evs (s(d \<mapsto> u)) = replay es ((s(d \<mapsto> u))(d \<mapsto> u\<lparr>progress := Some (percentage t)\<rparr>))"
    unfolding evs by (simp add: apply_event_def)
  also have "\<dots> = replay es (s(d \<mapsto> u\<lparr>progress := Some (percentage t)\<rparr>))"
    by (simp only: fun_upd_upd)
  finally have "replay evs (s(d \<mapsto> u)) = s(d \<mapsto> u')" using ih u' by simp
  then show ?case .
qed

lemma report_progress_writes:
  "report_progress d u ts = (u', evs) \<Longrightarrow> progress_writes d evs = map (\<lambda>t. Some (percentage t)) ts"
proof (induction ts arbitrary: u u' evs)
  case Nil
  then show ?case by auto
next
  case (Cons t ts)
  obtain uf es where r: "report_progress d (u\<lparr>progress := Some (percentage t)\<rparr>) ts = (uf, es)"
    by (cases "report_progress d (u\<lparr>progress := Some (percentage t)\<rparr>) ts") auto
  with Cons.prems have evs: "evs = SessionSet d (u\<lparr>progress := Some (percentage t)\<rparr>) # es"
    by (simp add: Let_def)
  show ?case using Cons.IH [OF r] evs by simp
qed

lemma replay_append: "replay (xs @ ys) s = replay ys (replay xs s)"
  by (induction xs arbitrary: s) auto

lemma guarded_no_completion:
  "\<forall>e \<in> set es. marks_completed e = None \<Longrightarrow> completion_guarded H prev es"
  by (induction es arbitrary: prev) auto

lemma guarded_append:
  "completion_guarded H prev (xs @ ys) =
     (completion_guarded H prev xs
      \<and> completion_guarded H (if xs = [] then prev else Some (last xs)) ys)"
  by (induction xs arbitrary: prev) auto


lemma downloadFirmware_guarded:
  "completion_guarded H prev (events_of (downloadFirmware H net now d fv m))"
proof -
  let ?u0 = "case updates m d of Some u \<Rightarrow> u
             | None \<Rightarrow> \<lparr>deviceId = d, currentVersion = [], targetVersion = None, status = Idle,
                  progress = None, error = None, startedAt = None, completedAt = None\<rparr>"
  let ?u1 = "?u0\<lparr>status := Downloading, progress := Some 0, targetVersion := Some (version fv)\<rparr>"
  let ?url = "case fileUrl fv of None \<Rightarrow> [] | Some u \<Rightarrow> u"
  let ?run = "download net (downloader (set_update d ?u1 m)) ?url True"
  obtain u2 reported where rp: "report_progress d ?u1 (dl_ticks ?run) = (u2, reported)"
    by (cases "report_progress d ?u1 (dl_ticks ?run)") auto
  have quiet: "\<forall>e \<in> set reported. marks_completed e = None"
    using report_progress_events [OF rp] by simp
  have st: "status u2 = Downloading"
    using report_progress_fields [OF rp] by simp
  let ?head = "[SessionSet d ?u1] @ (if dl_fetched ?run then [NetworkFetch ?url] else []) @ reported"
  have head: "\<forall>e \<in> set ?head. marks_completed e = None"
    using quiet by auto
  have g: "completion_guarded H p ?head" for p
    using head by (rule guarded_no_completion)
  show ?thesis
    using rp st g
    by (auto simp: downloadFirmware_def events_of_def Let_def guarded_append
          valid_iff_no_errors set_update_def
        split: sum.splits exn.splits)
qed


lemma downloadFirmware_replay:
  "updates (manager_of (downloadFirmware H net now d fv m))
     = replay (events_of (downloadFirmware H net now d fv m)) (updates m)"
proof -
  let ?u0 = "case updates m d of Some u \<Rightarrow> u
             | None \<Rightarrow> \<lparr>deviceId = d, currentVersion = [], targetVersion = None, status = Idle,
                  progress = None, error = None, startedAt = None, completedAt = None\<rparr>"
  let ?u1 = "?u0\<lparr>status := Downloading, progress := Some 0, targetVersion := Some (version fv)\<rparr>"
  let ?url = "case fileUrl fv of None \<Rightarrow> [] | Some u \<Rightarrow> u"
  let ?run = "download net (downloader (set_update d ?u1 m)) ?url True"
  obtain u2 reported where rp: "report_progress d ?u1 (dl_ticks ?run) = (u2, reported)"
    by (cases "report_progress d ?u1 (dl_ticks ?run)") auto
  have rep: "replay reported ((updates m)(d \<mapsto> ?u1)) = (updates m)(d \<mapsto> u2)"
    using rp by (rule report_progress_replay)
  show ?thesis
    using rp rep
    by (auto simp: downloadFirmware_def events_of_def manager_of_def Let_def replay_append
          apply_event_def set_update_def
        split: sum.splits exn.splits)
qed

lemma downloadFirmware_returns_verified:
  assumes "result_of (downloadFirmware H net now d fv m) = Inr firmwareData"
  shows "errors (verifyIntegrity H firmwareData fv) = []"
    and "map_option status (updates (manager_of (downloadFirmware H net now d fv m)) d)
           = Some Completed"
  using assms
  by (auto simp: downloadFirmware_def result_of_def manager_of_def Let_def valid_iff_no_errors
        set_update_def
      split: sum.splits exn.splits prod.splits if_splits)

lemma checkForUpdate_guarded:
  "completion_guarded H prev (events_of (checkForUpdate now d cur m))"
  by (simp add: checkForUpdate_def events_of_def Let_def split: option.splits)

lemma checkForUpdate_replay:
  "updates (manager_of (checkForUpdate now d cur m))
     = replay (events_of (checkForUpdate now d cur m)) (updates m)"
  by (simp add: checkForUpdate_def events_of_def manager_of_def Let_def apply_event_def
        set_update_def)

lemma checkForUpdate_result:
  "result_of (checkForUpdate now d cur m) = Inr (latestVersion (needsUpdate (versionManager m) cur None))"
  and "versionManager (manager_of (checkForUpdate now d cur m)) = versionManager m"
  by (simp_all add: checkForUpdate_def result_of_def manager_of_def Let_def set_update_def)

lemma performUpdate_cases:
  "performUpdate H net now now' d cur m =
     (case latestVersion (needsUpdate (versionManager m) cur None) of
        None \<Rightarrow> (events_of (checkForUpdate now d cur m), manager_of (checkForUpdate now d cur m),
                  Inl (Error ''No update available''))
      | Some latest \<Rightarrow>
          (events_of (checkForUpdate now d cur m)
             @ events_of (downloadFirmware H net now' d latest (manager_of (checkForUpdate now d cur m))),
           manager_of (downloadFirmware H net now' d latest (manager_of (checkForUpdate now d cur m))),
           result_of (downloadFirmware H net now' d latest (manager_of (checkForUpdate now d cur m)))))"
  by (simp add: performUpdate_def checkForUpdate_def events_of_def manager_of_def result_of_def
        Let_def split: option.splits prod.splits)

lemma checkForUpdate_quiet:
  "\<forall>e \<in> set (events_of (checkForUpdate now d cur m)). marks_completed e = None"
  by (simp add: checkForUpdate_def events_of_def Let_def split: option.splits)

lemma performUpdate_guarded:
  "completion_guarded H prev (events_of (performUpdate H net now now' d cur m))"
  by (simp add: performUpdate_cases events_of_def [of "(a, b, c)" for a b c] guarded_append
        guarded_no_completion [OF checkForUpdate_quiet] downloadFirmware_guarded
      split: option.splits)

lemma performUpdate_replay:
  "updates (manager_of (performUpdate H net now now' d cur m))
     = replay (events_of (performUpdate H net now now' d cur m)) (updates m)"
  by (simp add: performUpdate_cases events_of_def [of "(a, b, c)" for a b c]
        manager_of_def [of "(a, b, c)" for a b c] replay_append
        downloadFirmware_replay checkForUpdate_replay
      split: option.splits)

lemma cancelUpdate_guarded:
  "completion_guarded H prev (events_of (cancelUpdate d m))"
  by (simp add: cancelUpdate_def events_of_def Let_def split: option.splits)

lemma cancelUpdate_replay:
  "updates (manager_of (cancelUpdate d m)) = replay (events_of (cancelUpdate d m)) (updates m)"
  by (simp add: cancelUpdate_def events_of_def manager_of_def Let_def apply_event_def
        set_update_def split: option.splits)

lemma clearUpdate_guarded:
  "completion_guarded H prev (events_of (clearUpdate d m))"
  by (simp add: clearUpdate_def events_of_def)

lemma clearUpdate_replay:
  "updates (manager_of (clearUpdate d m)) = replay (events_of (clearUpdate d m)) (updates m)"
  by (simp add: clearUpdate_def events_of_def manager_of_def apply_event_def)

lemma perform_guarded: "completion_guarded H prev (fst (perform H op m))"
  by (cases op)
     (simp_all add: discard_def checkForUpdate_guarded downloadFirmware_guarded
        performUpdate_guarded cancelUpdate_guarded clearUpdate_guarded)

lemma perform_replay: "updates (snd (perform H op m)) = replay (fst (perform H op m)) (updates m)"
  by (cases op)
     (simp_all add: discard_def checkForUpdate_replay downloadFirmware_replay
        performUpdate_replay cancelUpdate_replay clearUpdate_replay)

lemma perform_all_guarded: "completion_guarded H prev (fst (perform_all H ops m))"
proof (induction ops arbitrary: prev m)
  case Nil
  then show ?case by simp
next
  case (Cons op ops)
  obtain evs m' where p: "perform H op m = (evs, m')" by (cases "perform H op m") auto
  obtain evs' m'' where q: "perform_all H ops m' = (evs', m'')"
    by (cases "perform_all H ops m'") auto
  have "completion_guarded H prev evs"
    using perform_guarded [of H prev op m] p by simp
  moreover have "completion_guarded H p' evs'" for p'
    using Cons.IH [of p' m'] q by simp
  ultimately show ?case
    using p q by (simp add: guarded_append)
qed

lemma perform_all_replay:
  "updates (snd (perform_all H ops m)) = replay (fst (perform_all H ops m)) (updates m)"
proof (induction ops arbitrary: m)
  case Nil
  then show ?case by simp
next
  case (Cons op ops)
  obtain evs m' where p: "perform H op m = (evs, m')" by (cases "perform H op m") auto
  obtain evs' m'' where q: "perform_all H ops m' = (evs', m'')"
    by (cases "perform_all H ops m'") auto
  have "updates m' = replay evs (updates m)"
    using perform_replay [of H op m] p by simp
  moreover have "updates m'' = replay evs' (updates m')"
    using Cons.IH [of m'] q by simp
  ultimately show ?case
    using p q by (simp add: replay_append)
qed

subsection \<open>Operations and what they verify\<close>

lemma report_progress_quiet:
  "report_progress d u ts = (u', evs) \<Longrightarrow> status u \<noteq> Completed \<Longrightarrow> \<forall>e \<in> set evs. quiet e"
proof (induction ts arbitrary: u u' evs)
  case Nil
  then show ?case by auto
next
  case (Cons t ts)
  obtain uf es where r: "report_progress d (u\<lparr>progress := Some (percentage t)\<rparr>) ts = (uf, es)"
    by (cases "report_progress d (u\<lparr>progress := Some (percentage t)\<rparr>) ts") auto
  with Cons.prems have evs: "evs = SessionSet d (u\<lparr>progress := Some (percentage t)\<rparr>) # es"
    by (simp add: Let_def)
  have "\<forall>e \<in> set es. quiet e"
    using Cons.IH [OF r] Cons.prems(2) by simp
  with evs Cons.prems(2) show ?case by simp
qed

lemma tied_quiet: "\<forall>e \<in> set es. quiet e \<Longrightarrow> tied H v prev es"
proof (induction es arbitrary: prev)
  case Nil
  then show ?case by simp
next
  case (Cons e es)
  then have "quiet e" by simp
  then have "tied_event H v prev e"
    by (cases e) (simp_all add: tied_event_def)
  with Cons show ?case by simp
qed

lemma tied_append:
  "tied H v prev (xs @ ys) =
     (tied H v prev xs \<and> tied H v (if xs = [] then prev else Some (last xs)) ys)"
  by (induction xs arbitrary: prev) auto

lemma downloadFirmware_tied:
  "tied H (map_option (\<lambda>firmwareData. (d, firmwareData, fv)) (downloaded_by net fv m)) prev
     (events_of (downloadFirmware H net now d fv m))"
proof -
  let ?u0 = "case updates m d of Some u \<Rightarrow> u
             | None \<Rightarrow> \<lparr>deviceId = d, currentVersion = [], targetVersion = None, status = Idle,
                  progress = None, error = None, startedAt = None, completedAt = None\<rparr>"
  let ?u1 = "?u0\<lparr>status := Downloading, progress := Some 0, targetVersion := Some (version fv)\<rparr>"
  let ?url = "case fileUrl fv of None \<Rightarrow> [] | Some u \<Rightarrow> u"
  let ?run = "download net (downloader (set_update d ?u1 m)) ?url True"
  obtain u2 reported where rp: "report_progress d ?u1 (dl_ticks ?run) = (u2, reported)"
    by (cases "report_progress d ?u1 (dl_ticks ?run)") auto
  have q: "\<forall>e \<in> set reported. quiet e"
    using report_progress_quiet [OF rp] by simp
  have st: "status u2 = Downloading"
    using report_progress_fields [OF rp] by simp
  let ?head = "[SessionSet d ?u1] @ (if dl_fetched ?run then [NetworkFetch ?url] else []) @ reported"
  have head: "\<forall>e \<in> set ?head. quiet e"
    using q by auto
  have g: "tied H v p ?head" for v p
    using head by (rule tied_quiet)
  show ?thesis
    using rp st g
    by (auto simp: downloadFirmware_def events_of_def Let_def tied_append tied_event_def
          valid_iff_no_errors set_update_def downloaded_by_def
        split: sum.splits exn.splits option.splits)
qed

lemma checkForUpdate_events_quiet:
  "\<forall>e \<in> set (events_of (checkForUpdate now d cur m)). quiet e"
  by (simp add: checkForUpdate_def events_of_def Let_def split: option.splits)

lemma checkForUpdate_downloader:
  "downloader (manager_of (checkForUpdate now d cur m)) = downloader m"
  by (simp add: checkForUpdate_def manager_of_def Let_def set_update_def)

lemma downloaded_by_downloader:
  "downloader m' = downloader m \<Longrightarrow> downloaded_by net fv m' = downloaded_by net fv m"
  unfolding downloaded_by_def by (erule ssubst) (rule refl)

lemma performUpdate_tied:
  "tied H (verification_of (PerformUpdate net now now' d cur, m)) None
     (events_of (performUpdate H net now now' d cur m))"
proof (cases "latestVersion (needsUpdate (versionManager m) cur None)")
  case None
  then show ?thesis
    by (simp add: performUpdate_cases events_of_def [of "(a, b, c)" for a b c]
          tied_quiet [OF checkForUpdate_events_quiet])
next
  case (Some latest)
  have same: "downloaded_by net latest (manager_of (checkForUpdate now d cur m))
                = downloaded_by net latest m"
    by (rule downloaded_by_downloader) (rule checkForUpdate_downloader)
  have "tied H (map_option (\<lambda>firmwareData. (d, firmwareData, latest)) (downloaded_by net latest m)) p
          (events_of (downloadFirmware H net now' d latest (manager_of (checkForUpdate now d cur m))))"
    for p
    using downloadFirmware_tied [of H d latest net "manager_of (checkForUpdate now d cur m)" p now']
    by (simp only: same)
  then show ?thesis
    using Some
    by (simp add: performUpdate_cases events_of_def [of "(a, b, c)" for a b c] tied_append
          tied_quiet [OF checkForUpdate_events_quiet])
qed

lemma perform_tied: "tied H (verification_of (op, m)) None (fst (perform H op m))"
proof (cases op)
  case (CheckForUpdate now d cur)
  then show ?thesis
    by (simp add: discard_def tied_quiet [OF checkForUpdate_events_quiet])
next
  case (DownloadFirmware net now d fv)
  then show ?thesis
    by (simp add: discard_def downloadFirmware_tied)
next
  case (PerformUpdate net now now' d cur)
  then show ?thesis
    using performUpdate_tied [of H net now now' d cur m] by (simp add: discard_def)
next
  case (CancelUpdate d)
  then show ?thesis
    by (simp add: discard_def cancelUpdate_def events_of_def tied_event_def Let_def
          split: option.splits)
next
  case (ClearUpdate d)
  then show ?thesis
    by (simp add: discard_def clearUpdate_def events_of_def tied_event_def)
qed

lemma steps_tied:
  "\<forall>(op, m0) \<in> set (steps H ops m). tied H (verification_of (op, m0)) None (fst (perform H op m0))"
  by (induction ops arbitrary: m) (auto simp: perform_tied)

lemma perform_all_steps:
  "fst (perform_all H ops m) = concat (map (\<lambda>(op, m0). fst (perform H op m0)) (steps H ops m))"
proof (induction ops arbitrary: m)
  case Nil
  then show ?case by simp
next
  case (Cons op ops)
  obtain evs m' where p: "perform H op m = (evs, m')" by (cases "perform H op m") auto
  obtain evs' m'' where q: "perform_all H ops m' = (evs', m'')"
    by (cases "perform_all H ops m'") auto
  have "evs' = concat (map (\<lambda>(op, m0). fst (perform H op m0)) (steps H ops m'))"
    using Cons.IH [of m'] q by simp
  then show ?case using p q by simp
qed

lemma downloadFirmware_completed_iff:
  "(map_option status (getUpdateStatus (manager_of (downloadFirmware H net now d fv m)) d)
      = Some Completed)
   = (\<exists>firmwareData. downloaded_by net fv m = Some firmwareData
        \<and> errors (verifyIntegrity H firmwareData fv) = [])"
proof -
  let ?u0 = "case updates m d of Some u \<Rightarrow> u
             | None \<Rightarrow> \<lparr>deviceId = d, currentVersion = [], targetVersion = None, status = Idle,
                  progress = None, error = None, startedAt = None, completedAt = None\<rparr>"
  let ?u1 = "?u0\<lparr>status := Downloading, progress := Some 0, targetVersion := Some (version fv)\<rparr>"
  let ?url = "case fileUrl fv of None \<Rightarrow> [] | Some u \<Rightarrow> u"
  let ?run = "download net (downloader (set_update d ?u1 m)) ?url True"
  obtain u2 reported where rp: "report_progress d ?u1 (dl_ticks ?run) = (u2, reported)"
    by (cases "report_progress d ?u1 (dl_ticks ?run)") auto
  show ?thesis
    using rp
    by (auto simp: downloadFirmware_def manager_of_def getUpdateStatus_def Let_def
          valid_iff_no_errors set_update_def downloaded_by_def
        split: sum.splits exn.splits option.splits)
qed

lemma downloadFirmware_returns_iff:
  "(result_of (downloadFirmware H net now d fv m) = Inr firmwareData)
   = (downloaded_by net fv m = Some firmwareData
        \<and> errors (verifyIntegrity H firmwareData fv) = [])"
proof -
  let ?u0 = "case updates m d of Some u \<Rightarrow> u
             | None \<Rightarrow> \<lparr>deviceId = d, currentVersion = [], targetVersion = None, status = Idle,
                  progress = None, error = None, startedAt = None, completedAt = None\<rparr>"
  let ?u1 = "?u0\<lparr>status := Downloading, progress := Some 0, targetVersion := Some (version fv)\<rparr>"
  let ?url = "case fileUrl fv of None \<Rightarrow> [] | Some u \<Rightarrow> u"
  let ?run = "download net (downloader (set_update d ?u1 m)) ?url True"
  obtain u2 reported where rp: "report_progress d ?u1 (dl_ticks ?run) = (u2, reported)"
    by (cases "report_progress d ?u1 (dl_ticks ?run)") auto
  show ?thesis
    using rp
    by (auto simp: downloadFirmware_def result_of_def Let_def
          valid_iff_no_errors set_update_def downloaded_by_def
        split: sum.splits exn.splits option.splits)
qed

subsection \<open>Progress reports\<close>

lemma round_percentage_mono:
  "0 < t \<Longrightarrow> d \<le> d' \<Longrightarrow> round_percentage d t \<le> round_percentage d' t"
  by (simp add: round_percentage_def zdiv_mono1)

lemma round_percentage_nonneg:
  "0 < t \<Longrightarrow> 0 \<le> d \<Longrightarrow> 0 \<le> round_percentage d t"
  by (simp add: round_percentage_def pos_imp_zdiv_nonneg_iff)

lemma read_loop_ticks:
  "read_loop cb tot rest chunks dl = (ticks, cs, dl') \<Longrightarrow>
     sorted (map percentage ticks)
     \<and> (\<forall>p \<in> set ticks. \<exists>t. tot = Some t \<and> 0 < t \<and> round_percentage dl t \<le> percentage p)"
proof (induction rest arbitrary: chunks dl ticks cs dl')
  case Nil
  then show ?case by simp
next
  case (Cons v rest)
  let ?dl = "dl + int (length v)"
  obtain ticks' cs' d' where r: "read_loop cb tot rest (chunks @ [v]) ?dl = (ticks', cs', d')"
    by (cases "read_loop cb tot rest (chunks @ [v]) ?dl") auto
  have ih: "sorted (map percentage ticks')"
    "\<forall>p \<in> set ticks'. \<exists>t. tot = Some t \<and> 0 < t \<and> round_percentage ?dl t \<le> percentage p"
    using Cons.IH [OF r] by simp_all
  have le: "dl \<le> ?dl" by simp
  show ?case
  proof (cases "\<exists>t. tot = Some t \<and> cb \<and> 0 < t")
    case True
    then obtain t where t: "tot = Some t" "cb" "0 < t" by auto
    have ticks: "ticks = \<lparr>downloaded = ?dl, total_bytes = t, percentage = round_percentage ?dl t\<rparr> # ticks'"
      using Cons.prems r t by (simp add: Let_def)
    have "\<forall>p \<in> set ticks'. round_percentage ?dl t \<le> percentage p"
      using ih(2) t by auto
    moreover have "round_percentage dl t \<le> round_percentage ?dl t"
      using t(3) le by (rule round_percentage_mono)
    ultimately show ?thesis
      using ih(1) t ticks by auto
  next
    case False
    then have ticks: "ticks = ticks'"
      using Cons.prems r by (auto simp: Let_def split: option.splits if_splits)
    have "\<forall>p \<in> set ticks'. \<exists>t. tot = Some t \<and> 0 < t \<and> round_percentage dl t \<le> percentage p"
    proof
      fix p assume "p \<in> set ticks'"
      with ih(2) obtain t where t: "tot = Some t" "0 < t" "round_percentage ?dl t \<le> percentage p"
        by auto
      moreover have "round_percentage dl t \<le> round_percentage ?dl t"
        using t(2) le by (rule round_percentage_mono)
      ultimately show "\<exists>t. tot = Some t \<and> 0 < t \<and> round_percentage dl t \<le> percentage p"
        by (auto intro: order_trans)
    qed
    with ih(1) ticks show ?thesis by simp
  qed
qed

lemma fetchWithProgress_ticks:
  "fetchWithProgress net cb = (ticks, r) \<Longrightarrow>
     sorted (map percentage ticks) \<and> (\<forall>p \<in> set ticks. 0 \<le> percentage p)"
proof (cases net)
  case (Rejected msg)
  assume "fetchWithProgress net cb = (ticks, r)"
  with Rejected show ?thesis by (simp add: fetchWithProgress_def)
next
  case (Responded response)
  assume f: "fetchWithProgress net cb = (ticks, r)"
  show ?thesis
  proof (cases "resp_ok response \<and> resp_body response \<noteq> None")
    case False
    with f Responded show ?thesis
      by (auto simp: fetchWithProgress_def Let_def split: if_splits option.splits)
  next
    case True
    then obtain stream ending where b: "resp_body response = Some (stream, ending)" by auto
    let ?tot = "case content_length response of None \<Rightarrow> Some 0
                | Some cl \<Rightarrow> if cl = [] then Some 0 else parseInt cl"
    obtain ts cs d where rl: "read_loop cb ?tot stream [] 0 = (ts, cs, d)"
      by (cases "read_loop cb ?tot stream [] 0") auto
    have "ticks = ts"
      using f Responded True b rl
      by (auto simp: fetchWithProgress_def Let_def split: stream_end.splits)
    moreover have "sorted (map percentage ts)"
      "\<forall>p \<in> set ts. \<exists>t. ?tot = Some t \<and> 0 < t \<and> round_percentage 0 t \<le> percentage p"
      using read_loop_ticks [OF rl] by simp_all
    moreover have "0 \<le> round_percentage 0 t" if "0 < t" for t
      using that by (simp add: round_percentage_nonneg)
    ultimately show ?thesis by (fastforce intro: order_trans)
  qed
qed

lemma download_ticks:
  "sorted (map percentage (dl_ticks (download net c url cb)))
   \<and> (\<forall>p \<in> set (dl_ticks (download net c url cb)). 0 \<le> percentage p)"
proof (cases "c url")
  case (Some cached)
  then show ?thesis by (simp add: download_def)
next
  case None
  obtain ticks r where f: "fetchWithProgress net cb = (ticks, r)"
    by (cases "fetchWithProgress net cb") auto
  have "dl_ticks (download net c url cb) = ticks"
    using None f by (auto simp: download_def split: sum.splits exn.splits)
  with fetchWithProgress_ticks [OF f] show ?thesis by simp
qed

lemma nondecreasing_map_Some: "nondecreasing (map Some xs) = sorted xs"
  by (induction xs rule: induct_list012) (auto intro: order_trans)

lemma progress_writes_append:
  "progress_writes d (xs @ ys) = progress_writes d xs @ progress_writes d ys"
  by (induction d xs rule: progress_writes.induct) auto

lemma sorted_le_last: "sorted xs \<Longrightarrow> x \<in> set xs \<Longrightarrow> x \<le> last xs"
  by (induction xs) auto

lemma progress_writes_of_downloadFirmware:
  assumes "fileUrl fv = Some url" "url \<noteq> []"
  shows "progress_writes d (events_of (downloadFirmware H net now d fv m))
         = map Some
             (0 # map percentage (dl_ticks (download net (downloader m) url True))
              @ (case dl_result (download net (downloader m) url True) of
                   Inl e \<Rightarrow> [last (0 # map percentage (dl_ticks (download net (downloader m) url True)))]
                 | Inr firmwareData \<Rightarrow>
                     (if valid (verifyIntegrity H firmwareData fv) then [90, 100]
                      else [90, 90, 90])))"
proof -
  let ?u0 = "case updates m d of Some u \<Rightarrow> u
             | None \<Rightarrow> \<lparr>deviceId = d, currentVersion = [], targetVersion = None, status = Idle,
                  progress = None, error = None, startedAt = None, completedAt = None\<rparr>"
  let ?u1 = "?u0\<lparr>status := Downloading, progress := Some 0, targetVersion := Some (version fv)\<rparr>"
  let ?run = "download net (downloader m) url True"
  obtain u2 reported where rp: "report_progress d ?u1 (dl_ticks ?run) = (u2, reported)"
    by (cases "report_progress d ?u1 (dl_ticks ?run)") auto
  have w: "progress_writes d reported = map (\<lambda>t. Some (percentage t)) (dl_ticks ?run)"
    using rp by (rule report_progress_writes)
  have p2: "progress u2 = Some (last (0 # map percentage (dl_ticks ?run)))"
    using report_progress_fields [OF rp] by (simp add: last_map)
  show ?thesis
    using assms rp w p2
    by (auto simp: downloadFirmware_def events_of_def Let_def set_update_def
          progress_writes_append
        split: sum.splits exn.splits)
qed

subsection \<open>Completion, preconditions and progress\<close>

text \<open>
  C1. Over every sequence of operations, from every manager: the sessions afterwards
  are exactly those that the recorded events produce, and every event that stores a
  session with status \<open>Completed\<close> comes immediately after a call of \<open>verifyIntegrity\<close> for
  the same device that returned no errors. The events of the sequence are those of
  its operations, one after the other, and within each operation the only call of
  \<open>verifyIntegrity\<close> is on the bytes that this operation downloaded and the version it
  installs, and a session is stored as \<open>Completed\<close> only for that device, right after
  that call, when it returned no errors. After \<open>downloadFirmware\<close> the device's session
  is \<open>Completed\<close> exactly when bytes were downloaded and \<open>verifyIntegrity\<close> returns no
  errors for them and the version, and exactly then are those bytes returned; whenever
  a check fails the session is not \<open>Completed\<close> and no bytes are returned.
  \<open>performUpdate\<close> returns a buffer only if \<open>verifyIntegrity\<close> returns no errors for it
  and the latest version.
\<close>

theorem completed_only_after_clean_verification:
  "completion_guarded H None (fst (perform_all H ops m))
   \<and> updates (snd (perform_all H ops m)) = replay (fst (perform_all H ops m)) (updates m)
   \<and> (result_of (downloadFirmware H net now d fv m) = Inr firmwareData
        \<longrightarrow> errors (verifyIntegrity H firmwareData fv) = [])
   \<and> (result_of (performUpdate H net now now' d cur m) = Inr firmwareData
        \<longrightarrow> (\<exists>latest. latestVersion (needsUpdate (versionManager m) cur None) = Some latest
                \<and> errors (verifyIntegrity H firmwareData latest) = []))
   \<and> fst (perform_all H ops m)
        = concat (map (\<lambda>(op, m0). fst (perform H op m0)) (steps H ops m))
   \<and> (\<forall>(op, m0) \<in> set (steps H ops m).
         tied H (verification_of (op, m0)) None (fst (perform H op m0)))
   \<and> ((map_option status (getUpdateStatus (manager_of (downloadFirmware H net now d fv m)) d)
          = Some Completed)
        = (\<exists>b. downloaded_by net fv m = Some b \<and> errors (verifyIntegrity H b fv) = []))
   \<and> ((result_of (downloadFirmware H net now d fv m) = Inr firmwareData)
        = (downloaded_by net fv m = Some firmwareData
           \<and> errors (verifyIntegrity H firmwareData fv) = []))"
proof (intro conjI impI)
  show "completion_guarded H None (fst (perform_all H ops m))"
    by (rule perform_all_guarded)
  show "updates (snd (perform_all H ops m)) = replay (fst (perform_all H ops m)) (updates m)"
    by (rule perform_all_replay)
  show "errors (verifyIntegrity H firmwareData fv) = []"
    if "result_of (downloadFirmware H net now d fv m) = Inr firmwareData"
    using that by (rule downloadFirmware_returns_verified)
  show "\<exists>latest. latestVersion (needsUpdate (versionManager m) cur None) = Some latest
                \<and> errors (verifyIntegrity H firmwareData latest) = []"
    if r: "result_of (performUpdate H net now now' d cur m) = Inr firmwareData"
  proof (cases "latestVersion (needsUpdate (versionManager m) cur None)")
    case None
    with r show ?thesis by (simp add: performUpdate_cases result_of_def)
  next
    case (Some latest)
    with r have "result_of (downloadFirmware H net now' d latest
                   (manager_of (checkForUpdate now d cur m))) = Inr firmwareData"
      by (simp add: performUpdate_cases result_of_def [of "(a, b, c)" for a b c])
    then have "errors (verifyIntegrity H firmwareData latest) = []"
      by (rule downloadFirmware_returns_verified)
    with Some show ?thesis by simp
  qed
  show "fst (perform_all H ops m)
        = concat (map (\<lambda>(op, m0). fst (perform H op m0)) (steps H ops m))"
    by (rule perform_all_steps)
  show "\<forall>(op, m0) \<in> set (steps H ops m).
         tied H (verification_of (op, m0)) None (fst (perform H op m0))"
    by (rule steps_tied)
  show "(map_option status (getUpdateStatus (manager_of (downloadFirmware H net now d fv m)) d)
          = Some Completed)
        = (\<exists>b. downloaded_by net fv m = Some b \<and> errors (verifyIntegrity H b fv) = [])"
    by (rule downloadFirmware_completed_iff)
  show "(result_of (downloadFirmware H net now d fv m) = Inr firmwareData)
        = (downloaded_by net fv m = Some firmwareData
           \<and> errors (verifyIntegrity H firmwareData fv) = [])"
    by (rule downloadFirmware_returns_iff)
qed

theorem completed_only_after_clean_verification_witness:
  "result_of (downloadFirmware sample_crypto (Responded sample_response) 2 ''dev'' sample_firmware
      sample_manager) = Inr [1, 2, 3]
   \<and> errors (verifyIntegrity sample_crypto [1, 2, 3] sample_firmware) = []
   \<and> map_option status
        (updates (snd (perform_all sample_crypto
           [CheckForUpdate 1 ''dev'' ''1.0.0'',
            DownloadFirmware (Responded sample_response) 2 ''dev'' sample_firmware,
            CancelUpdate ''dev''] sample_manager)) ''dev'') = Some Completed
   \<and> completion_guarded sample_crypto None
        (fst (perform_all sample_crypto
           [CheckForUpdate 1 ''dev'' ''1.0.0'',
            DownloadFirmware (Responded sample_response) 2 ''dev'' sample_firmware,
            CancelUpdate ''dev''] sample_manager))
   \<and> downloaded_by (Responded sample_response) sample_firmware sample_manager = Some [1, 2, 3]
   \<and> map_option status (getUpdateStatus (manager_of (downloadFirmware sample_crypto
        (Responded sample_response) 2 ''dev'' sample_firmware sample_manager)) ''dev'')
      = Some Completed
   \<and> downloaded_by (Responded sample_response) (sample_firmware\<lparr>checksum := Some ''00''\<rparr>)
        sample_manager = Some [1, 2, 3]
   \<and> errors (verifyIntegrity sample_crypto [1, 2, 3] (sample_firmware\<lparr>checksum := Some ''00''\<rparr>))
      = [''Checksum verification failed'']
   \<and> map_option status (getUpdateStatus (manager_of (downloadFirmware sample_crypto
        (Responded sample_response) 2 ''dev'' (sample_firmware\<lparr>checksum := Some ''00''\<rparr>)
        sample_manager)) ''dev'')
      \<noteq> Some Completed
   \<and> result_of (downloadFirmware sample_crypto (Responded sample_response) 2 ''dev''
        (sample_firmware\<lparr>checksum := Some ''00''\<rparr>) sample_manager) \<noteq> Inr [1, 2, 3]"
proof -
  let ?bad = "sample_firmware\<lparr>checksum := Some ''00''\<rparr>"
  have a: "result_of (downloadFirmware sample_crypto (Responded sample_response) 2 ''dev''
      sample_firmware sample_manager) = Inr [1, 2, 3]"
    by code_simp
  have b: "map_option status
        (updates (snd (perform_all sample_crypto
           [CheckForUpdate 1 ''dev'' ''1.0.0'',
            DownloadFirmware (Responded sample_response) 2 ''dev'' sample_firmware,
            CancelUpdate ''dev''] sample_manager)) ''dev'') = Some Completed"
    by code_simp
  have c: "downloaded_by (Responded sample_response) sample_firmware sample_manager
             = Some [1, 2, 3]"
    by code_simp
  have e: "downloaded_by (Responded sample_response) ?bad sample_manager = Some [1, 2, 3]"
    by code_simp
  have f: "errors (verifyIntegrity sample_crypto [1, 2, 3] ?bad)
             = [''Checksum verification failed'']"
    by code_simp
  note good = completed_only_after_clean_verification [of sample_crypto
           "[CheckForUpdate 1 ''dev'' ''1.0.0'',
            DownloadFirmware (Responded sample_response) 2 ''dev'' sample_firmware,
            CancelUpdate ''dev'']" sample_manager "Responded sample_response" 2 "''dev''"
           sample_firmware "[1, 2, 3]" 3 "''1.0.0''"]
  note bad = completed_only_after_clean_verification [of sample_crypto "[]" sample_manager
           "Responded sample_response" 2 "''dev''" ?bad "[1, 2, 3]" 3 "''1.0.0''"]
  have g: "completion_guarded sample_crypto None
        (fst (perform_all sample_crypto
           [CheckForUpdate 1 ''dev'' ''1.0.0'',
            DownloadFirmware (Responded sample_response) 2 ''dev'' sample_firmware,
            CancelUpdate ''dev''] sample_manager))"
    using good by - (elim conjE, assumption)
  have clean: "errors (verifyIntegrity sample_crypto [1, 2, 3] sample_firmware) = []"
    using good a by - (elim conjE, erule impE, assumption+)
  have "(map_option status (getUpdateStatus (manager_of (downloadFirmware sample_crypto
        (Responded sample_response) 2 ''dev'' sample_firmware sample_manager)) ''dev'')
      = Some Completed)
      = (\<exists>b. downloaded_by (Responded sample_response) sample_firmware sample_manager = Some b
            \<and> errors (verifyIntegrity sample_crypto b sample_firmware) = [])"
    using good by - (elim conjE, assumption)
  then have completed: "map_option status (getUpdateStatus (manager_of (downloadFirmware sample_crypto
        (Responded sample_response) 2 ''dev'' sample_firmware sample_manager)) ''dev'')
      = Some Completed"
    using c clean by simp
  have "(map_option status (getUpdateStatus (manager_of (downloadFirmware sample_crypto
        (Responded sample_response) 2 ''dev'' ?bad sample_manager)) ''dev'')
      = Some Completed)
      = (\<exists>b. downloaded_by (Responded sample_response) ?bad sample_manager = Some b
            \<and> errors (verifyIntegrity sample_crypto b ?bad) = [])"
    using bad by - (elim conjE, assumption)
  then have failed: "map_option status (getUpdateStatus (manager_of (downloadFirmware sample_crypto
        (Responded sample_response) 2 ''dev'' ?bad sample_manager)) ''dev'')
      \<noteq> Some Completed"
    using e f by simp
  have "(result_of (downloadFirmware sample_crypto (Responded sample_response) 2 ''dev''
        ?bad sample_manager) = Inr [1, 2, 3])
      = (downloaded_by (Responded sample_response) ?bad sample_manager = Some [1, 2, 3]
            \<and> errors (verifyIntegrity sample_crypto [1, 2, 3] ?bad) = [])"
    using bad by - (elim conjE, assumption)
  then have kept: "result_of (downloadFirmware sample_crypto (Responded sample_response) 2 ''dev''
        ?bad sample_manager) \<noteq> Inr [1, 2, 3]"
    using f by simp
  show ?thesis
    using a clean b g c completed e f failed kept by (intro conjI)
qed

text \<open>
  C2 fails on the source. \<open>checkForUpdate\<close> returns the latest version of the catalogue
  whether or not an update is needed, so \<open>performUpdate\<close> downloads whenever the
  catalogue is not empty: a device at \<open>2.0.0\<close> with \<open>1.0.1\<close> as the latest version is
  told no update is needed, and still the firmware is fetched, verified and the session
  completed.
\<close>

theorem performUpdate_downloads_without_update:
  "compareVersions ''2.0.0'' ''1.0.1'' = 1
   \<and> \<not> needsUpdate_flag (needsUpdate (versionManager sample_manager) ''2.0.0'' None)
   \<and> result_of (performUpdate sample_crypto (Responded sample_response) 1 2 ''dev'' ''2.0.0''
        sample_manager) = Inr [1, 2, 3]
   \<and> NetworkFetch ''https://example.com/fw-1.0.1.bin''
        \<in> set (events_of (performUpdate sample_crypto (Responded sample_response) 1 2 ''dev''
              ''2.0.0'' sample_manager))
   \<and> getUpdateStatus (manager_of (performUpdate sample_crypto (Responded sample_response) 1 2
        ''dev'' ''2.0.0'' sample_manager)) ''dev''
     = Some \<lparr>deviceId = ''dev'', currentVersion = ''2.0.0'', targetVersion = Some ''1.0.1'',
              status = Completed, progress = Some 100, error = None,
              startedAt = Some 1, completedAt = Some 2\<rparr>"
  by code_simp

text \<open>
  C6 fails on the source. The session is stored with status \<open>Downloading\<close>, progress 0
  and the new target version before the url is looked at, and the error is thrown
  outside the \<open>try\<close> block, so the session stays \<open>Downloading\<close> with no error recorded.
\<close>

theorem downloadFirmware_missing_url_leaves_downloading:
  "getUpdateStatus (manager_of (checkForUpdate 1 ''dev'' ''1.0.0'' sample_manager)) ''dev''
     = Some \<lparr>deviceId = ''dev'', currentVersion = ''1.0.0'', targetVersion = Some ''1.0.1'',
              status = Idle, progress = None, error = None,
              startedAt = Some 1, completedAt = None\<rparr>
   \<and> result_of (downloadFirmware sample_crypto (Responded sample_response) 2 ''dev''
        (sample_firmware\<lparr>version := ''1.0.2'', fileUrl := None\<rparr>)
        (manager_of (checkForUpdate 1 ''dev'' ''1.0.0'' sample_manager)))
     = Inl (Error ''Firmware file URL is not specified'')
   \<and> getUpdateStatus (manager_of (downloadFirmware sample_crypto (Responded sample_response) 2 ''dev''
        (sample_firmware\<lparr>version := ''1.0.2'', fileUrl := None\<rparr>)
        (manager_of (checkForUpdate 1 ''dev'' ''1.0.0'' sample_manager)))) ''dev''
     = Some \<lparr>deviceId = ''dev'', currentVersion = ''1.0.0'', targetVersion = Some ''1.0.2'',
              status = Downloading, progress = Some 0, error = None,
              startedAt = Some 1, completedAt = None\<rparr>"
  by code_simp

text \<open>
  C7, as the source has it. In one run of \<open>downloadFirmware\<close> with a url, the progress
  values stored are 0, then the percentages reported by the downloader, which never
  decrease, then 90 when verification starts and 100 on completion (90 twice more when
  verification fails; after a failed download the last value once more). The whole
  sequence never decreases exactly when the download failed or no reported percentage
  was above 90.
\<close>

theorem downloadFirmware_progress:
  assumes "fileUrl fv = Some url" "url \<noteq> []"
  shows "sorted (0 # map percentage (dl_ticks (download net (downloader m) url True)))
    \<and> progress_writes d (events_of (downloadFirmware H net now d fv m))
         = map Some
             (0 # map percentage (dl_ticks (download net (downloader m) url True))
              @ (case dl_result (download net (downloader m) url True) of
                   Inl e \<Rightarrow> [last (0 # map percentage (dl_ticks (download net (downloader m) url True)))]
                 | Inr firmwareData \<Rightarrow>
                     (if valid (verifyIntegrity H firmwareData fv) then [90, 100]
                      else [90, 90, 90])))
    \<and> (nondecreasing (progress_writes d (events_of (downloadFirmware H net now d fv m)))
         \<longleftrightarrow> (\<exists>e. dl_result (download net (downloader m) url True) = Inl e)
             \<or> (\<forall>p \<in> set (dl_ticks (download net (downloader m) url True)). percentage p \<le> 90))"
proof -
  let ?run = "download net (downloader m) url True"
  let ?ps = "map percentage (dl_ticks ?run)"
  have s: "sorted (0 # ?ps)"
    using download_ticks [of net "downloader m" url True] by simp
  have w: "progress_writes d (events_of (downloadFirmware H net now d fv m))
         = map Some (0 # ?ps
              @ (case dl_result ?run of
                   Inl e \<Rightarrow> [last (0 # ?ps)]
                 | Inr firmwareData \<Rightarrow>
                     (if valid (verifyIntegrity H firmwareData fv) then [90, 100]
                      else [90, 90, 90])))"
    using assms by (rule progress_writes_of_downloadFirmware)
  have l: "\<forall>x \<in> set (0 # ?ps). x \<le> last (0 # ?ps)"
    using s sorted_le_last by blast
  have n: "nondecreasing (progress_writes d (events_of (downloadFirmware H net now d fv m)))
         \<longleftrightarrow> (\<exists>e. dl_result ?run = Inl e) \<or> (\<forall>p \<in> set (dl_ticks ?run). percentage p \<le> 90)"
  proof (cases "dl_result ?run")
    case (Inl e)
    have "progress_writes d (events_of (downloadFirmware H net now d fv m))
            = map Some ((0 # ?ps) @ [last (0 # ?ps)])"
      using w Inl by simp
    then have "nondecreasing (progress_writes d (events_of (downloadFirmware H net now d fv m)))
            = sorted ((0 # ?ps) @ [last (0 # ?ps)])"
      by (simp only: nondecreasing_map_Some)
    moreover have "sorted ((0 # ?ps) @ [last (0 # ?ps)])"
      using s l by (simp only: sorted_append) simp
    ultimately show ?thesis
      using Inl by blast
  next
    case (Inr firmwareData)
    let ?tail = "if valid (verifyIntegrity H firmwareData fv) then [90, 100] else [90, 90, 90 :: int]"
    have "progress_writes d (events_of (downloadFirmware H net now d fv m))
            = map Some ((0 # ?ps) @ ?tail)"
      using w Inr by simp
    then have "nondecreasing (progress_writes d (events_of (downloadFirmware H net now d fv m)))
            = sorted ((0 # ?ps) @ ?tail)"
      by (simp only: nondecreasing_map_Some)
    moreover have "sorted ((0 # ?ps) @ ?tail) \<longleftrightarrow> (\<forall>p \<in> set (dl_ticks ?run). percentage p \<le> 90)"
      using s by (simp only: sorted_append) auto
    ultimately show ?thesis
      using Inr by simp
  qed
  show ?thesis using s w n by blast
qed

theorem downloadFirmware_progress_witness:
  "fileUrl sample_firmware = Some ''https://example.com/fw-1.0.1.bin''
   \<and> ''https://example.com/fw-1.0.1.bin'' \<noteq> []
   \<and> progress_writes ''dev''
        (events_of (downloadFirmware sample_crypto
           (Responded (sample_response\<lparr>content_length := None\<rparr>)) 2 ''dev''
           sample_firmware sample_manager))
       = [Some 0, Some 90, Some 100]
   \<and> nondecreasing (progress_writes ''dev''
        (events_of (downloadFirmware sample_crypto
           (Responded (sample_response\<lparr>content_length := None\<rparr>)) 2 ''dev''
           sample_firmware sample_manager)))"
proof -
  have a: "fileUrl sample_firmware = Some ''https://example.com/fw-1.0.1.bin''"
    by (simp add: sample_firmware_def)
  have b: "''https://example.com/fw-1.0.1.bin'' \<noteq> []"
    by simp
  have c: "dl_ticks (download (Responded (sample_response\<lparr>content_length := None\<rparr>))
             (downloader sample_manager) ''https://example.com/fw-1.0.1.bin'' True) = []"
    by (simp add: download_def fetchWithProgress_def sample_response_def sample_manager_def)
  have d: "dl_result (download (Responded (sample_response\<lparr>content_length := None\<rparr>))
             (downloader sample_manager) ''https://example.com/fw-1.0.1.bin'' True) = Inr [1, 2, 3]"
    by (simp add: download_def fetchWithProgress_def sample_response_def sample_manager_def)
  have e: "valid (verifyIntegrity sample_crypto [1, 2, 3] sample_firmware)"
    by (simp add: verifyIntegrity_def sample_firmware_def)
  show ?thesis
    using downloadFirmware_progress [OF a b, of "Responded (sample_response\<lparr>content_length := None\<rparr>)"
        sample_manager "''dev''" sample_crypto 2]
    by (simp add: a c d e)
qed

text \<open>
  C7 as stated fails: a download reported up to 100 per cent is followed by the
  checkpoint 90.
\<close>

theorem progress_drops_counterexample:
  "progress_writes ''dev''
     (events_of (downloadFirmware sample_crypto (Responded sample_response) 2 ''dev''
        sample_firmware sample_manager))
     = [Some 0, Some 67, Some 100, Some 90, Some 100]
   \<and> \<not> nondecreasing [Some 0, Some 67, Some 100, Some 90, Some 100]"
  by code_simp

text \<open>
  C10. \<open>downloadFirmware\<close> for a device without a session leaves a session for it whose
  \<open>currentVersion\<close> is the empty string, whatever the outcome of the call.
\<close>

theorem downloadFirmware_creates_session:
  assumes "getUpdateStatus m d = None"
  shows "map_option currentVersion
           (getUpdateStatus (manager_of (downloadFirmware H net now d fv m)) d) = Some []"
proof -
  let ?u0 = "\<lparr>deviceId = d, currentVersion = [], targetVersion = None, status = Idle,
                  progress = None, error = None, startedAt = None, completedAt = None\<rparr>"
  let ?u1 = "?u0\<lparr>status := Downloading, progress := Some 0, targetVersion := Some (version fv)\<rparr>"
  let ?url = "case fileUrl fv of None \<Rightarrow> [] | Some u \<Rightarrow> u"
  let ?run = "download net (downloader (set_update d ?u1 m)) ?url True"
  obtain u2 reported where rp: "report_progress d ?u1 (dl_ticks ?run) = (u2, reported)"
    by (cases "report_progress d ?u1 (dl_ticks ?run)") auto
  have cv: "currentVersion u2 = []"
    using report_progress_fields [OF rp] by simp
  show ?thesis
    using assms rp cv
    by (auto simp: downloadFirmware_def getUpdateStatus_def manager_of_def Let_def set_update_def
        split: sum.splits exn.splits)
qed

theorem downloadFirmware_creates_session_witness:
  "getUpdateStatus sample_manager ''dev'' = None
   \<and> getUpdateStatus (manager_of (downloadFirmware sample_crypto (Rejected ''offline'') 2 ''dev''
        sample_firmware sample_manager)) ''dev''
     = Some \<lparr>deviceId = ''dev'', currentVersion = [], targetVersion = Some ''1.0.1'',
              status = Failed, progress = Some 0,
              error = Some ''Firmware download failed: offline'',
              startedAt = None, completedAt = None\<rparr>"
proof -
  have a: "getUpdateStatus sample_manager ''dev'' = None"
    by (simp add: getUpdateStatus_def sample_manager_def)
  have b: "getUpdateStatus (manager_of (downloadFirmware sample_crypto (Rejected ''offline'') 2 ''dev''
        sample_firmware sample_manager)) ''dev''
     = Some \<lparr>deviceId = ''dev'', currentVersion = [], targetVersion = Some ''1.0.1'',
              status = Failed, progress = Some 0,
              error = Some ''Firmware download failed: offline'',
              startedAt = None, completedAt = None\<rparr>"
    by code_simp
  show ?thesis
    using a b downloadFirmware_creates_session [OF a, of sample_crypto "Rejected ''offline''" 2
        sample_firmware]
    by simp
qed

end
